theory Spec2Isabelle
  imports Complex_Main "HOL-Library.AList"
begin

section \<open>Python values and exceptions\<close>

text \<open>
  The module \<^verbatim>\<open>STACpopulator/stac_utils.py\<close> works on dynamically typed Python
  values. \<open>pyval\<close> holds the values that occur: JSON-like data read from a
  configuration file, \<^verbatim>\<open>datetime\<close> objects made by \<^verbatim>\<open>strptime\<close>, and the
  \<^verbatim>\<open>pystac\<close> extent and summaries objects the collection builder stores in its
  mapping. A \<^verbatim>\<open>datetime\<close> is naive (no time zone), as \<^verbatim>\<open>strptime\<close> makes it. A \<^verbatim>\<open>dict\<close> with string keys is an association list in insertion
  order; it is read with \<open>map_of\<close>.
\<close>

record datetime =
  dt_year :: nat
  dt_month :: nat
  dt_day :: nat
  dt_hour :: nat
  dt_minute :: nat
  dt_second :: nat

text \<open>
  \<^verbatim>\<open>pystac.TemporalExtent\<close> holds a list of intervals, each a pair of optional
  datetimes; \<^verbatim>\<open>pystac.SpatialExtent\<close> holds its list of bounding boxes;
  \<^verbatim>\<open>pystac.Extent\<close> holds one of each; \<^verbatim>\<open>pystac.Summaries\<close> holds a mapping.
\<close>

datatype temporal_extent = TemporalExtent "(datetime option \<times> datetime option) list"

datatype pyval =
    PNone
  | PBool bool
  | PInt int
  | PFloat rat
  | PStr string
  | PList "pyval list"
  | PDict "(string \<times> pyval) list"
  | PDatetime datetime
  | PExtent extent
  | PSummaries summaries
and spatial_extent = SpatialExtent pyval
and extent = Extent spatial_extent temporal_extent
and summaries = Summaries "(string \<times> pyval) list"

type_synonym pydict = "(string \<times> pyval) list"

text \<open>
  The exception classes of \<^verbatim>\<open>requests.exceptions\<close>; every one of them derives from
  \<^verbatim>\<open>RequestException\<close>. \<^verbatim>\<open>ProxyError\<close>, \<^verbatim>\<open>SSLError\<close> and \<^verbatim>\<open>ConnectTimeout\<close>
  also derive from \<^verbatim>\<open>ConnectionError\<close>.
\<close>

datatype requests_exc =
    HTTPError nat
  | ConnectionError
  | ProxyError
  | SSLError
  | ConnectTimeout
  | ReadTimeout
  | TooManyRedirects
  | MissingSchema
  | InvalidSchema
  | InvalidURL
  | ChunkedEncodingError
  | ContentDecodingError

text \<open>
  What a function of the module can raise. \<^verbatim>\<open>NameError\<close> carries the name that is not
  bound. \<^verbatim>\<open>LocationParseError\<close> is an exception of \<^verbatim>\<open>urllib3\<close>, not of \<^verbatim>\<open>requests\<close>:
  it does not derive from \<^verbatim>\<open>RequestException\<close>, and \<^verbatim>\<open>requests.get\<close> lets it through
  for a host with an empty label such as \<^verbatim>\<open>http://a..b.com\<close>. \<open>Unmodelled\<close> is not a
  Python exception: it marks a call whose course inside \<^verbatim>\<open>pystac\<close> lies outside this
  development (see \<open>Collection_init\<close>).
\<close>

datatype exc =
    KeyError pyval
  | IndexError
  | TypeError
  | ValueError
  | NameError string
  | LocationParseError
  | RequestException requests_exc
  | Unmodelled string

fun isinstance_RequestException :: "exc \<Rightarrow> bool" where
  "isinstance_RequestException (RequestException _) = True"
| "isinstance_RequestException _ = False"

fun isinstance_ConnectionError :: "exc \<Rightarrow> bool" where
  "isinstance_ConnectionError (RequestException ConnectionError) = True"
| "isinstance_ConnectionError (RequestException ProxyError) = True"
| "isinstance_ConnectionError (RequestException SSLError) = True"
| "isinstance_ConnectionError (RequestException ConnectTimeout) = True"
| "isinstance_ConnectionError _ = False"

text \<open>The ASCII digits.\<close>

definition is_digit :: "char \<Rightarrow> bool" where
  "is_digit c = (c \<in> set ''0123456789'')"

section \<open>Validating a URL\<close>

subsection \<open>Regular expressions\<close>

text \<open>
  The patterns of the module and the part of Python's \<^verbatim>\<open>re\<close> they use: literals,
  character sets with ranges and the escapes \<^verbatim>\<open>\d\<close> and \<^verbatim>\<open>\S\<close>, sequence,
  alternative, counted and open repetition, and the anchors \<^verbatim>\<open>^\<close> and \<^verbatim>\<open>$\<close>.
  Characters are the code points 0 to 255; above them \<^verbatim>\<open>re\<close> knows further digits,
  spaces and case pairs, which are not modelled.
\<close>

datatype item = Ch char | Range char char | Digit | NonSpace

datatype regex =
    Literal string
  | Class "item list"
  | Seq regex regex
  | Or regex regex
  | Repeat nat "nat option" regex
  | Caret
  | Dollar

definition lower :: "char \<Rightarrow> char" where
  "lower c =
     (case map_of (zip ''ABCDEFGHIJKLMNOPQRSTUVWXYZ'' ''abcdefghijklmnopqrstuvwxyz'') c of
        None \<Rightarrow> c | Some l \<Rightarrow> l)"

definition upper :: "char \<Rightarrow> char" where
  "upper c =
     (case map_of (zip ''abcdefghijklmnopqrstuvwxyz'' ''ABCDEFGHIJKLMNOPQRSTUVWXYZ'') c of
        None \<Rightarrow> c | Some u \<Rightarrow> u)"

definition in_range :: "char \<Rightarrow> char \<Rightarrow> char \<Rightarrow> bool" where
  "in_range a b c = ((of_char a :: nat) \<le> of_char c \<and> (of_char c :: nat) \<le> of_char b)"

definition is_space :: "char \<Rightarrow> bool" where
  "is_space c = ((of_char c :: nat) \<in> {9, 10, 11, 12, 13, 28, 29, 30, 31, 32, 133, 160})"

text \<open>
  With \<^verbatim>\<open>re.IGNORECASE\<close> a literal matches in either case and a range matches a
  character whose lower-case or upper-case form lies in it.
\<close>

fun item_matches :: "bool \<Rightarrow> item \<Rightarrow> char \<Rightarrow> bool" where
  "item_matches ic (Ch a) c = (if ic then lower c = lower a else c = a)"
| "item_matches ic (Range a b) c =
     (if ic then in_range a b c \<or> in_range a b (lower c) \<or> in_range a b (upper c)
      else in_range a b c)"
| "item_matches ic Digit c = is_digit c"
| "item_matches ic NonSpace c = (\<not> is_space c)"

text \<open>
  \<open>run ic r s\<close> lists, in the order in which the backtracking matcher tries them,
  the rests of \<open>s\<close> that remain after a match of \<open>r\<close> at the start of \<open>s\<close>. A
  pattern matches at the start of a string when the list is not empty. \<^verbatim>\<open>^\<close> holds
  at the start, which is where \<^verbatim>\<open>re.match\<close> begins and where the pattern has it;
  \<^verbatim>\<open>$\<close> holds at the end of the string and also just before a newline that ends the
  string. An open repetition stops after as many rounds as the string has
  characters, since a round that consumes nothing adds no new rest.
\<close>

fun literal_rest :: "bool \<Rightarrow> string \<Rightarrow> string \<Rightarrow> string list" where
  "literal_rest ic [] s = [s]"
| "literal_rest ic (a # l) [] = []"
| "literal_rest ic (a # l) (c # s) =
     (if item_matches ic (Ch a) c then literal_rest ic l s else [])"

fun rep :: "(string \<Rightarrow> string list) \<Rightarrow> nat \<Rightarrow> nat \<Rightarrow> string \<Rightarrow> string list" where
  "rep f 0 0 s = [s]"
| "rep f 0 (Suc k) s = concat (map (rep f 0 k) (f s)) @ [s]"
| "rep f (Suc m) k s = concat (map (rep f m k) (f s))"

fun run :: "bool \<Rightarrow> regex \<Rightarrow> string \<Rightarrow> string list" where
  "run ic (Literal l) s = literal_rest ic l s"
| "run ic (Class items) s =
     (case s of
        [] \<Rightarrow> []
      | c # t \<Rightarrow> if list_ex (\<lambda>i. item_matches ic i c) items then [t] else [])"
| "run ic (Seq a b) s = concat (map (run ic b) (run ic a s))"
| "run ic (Or a b) s = run ic a s @ run ic b s"
| "run ic (Repeat m None r) s = rep (run ic r) m (length s) s"
| "run ic (Repeat m (Some n) r) s = rep (run ic r) m (n - m) s"
| "run ic Caret s = [s]"
| "run ic Dollar s = (if s = [] \<or> s = [CHR 0x0A] then [s] else [])"

definition re_match :: "bool \<Rightarrow> regex \<Rightarrow> string \<Rightarrow> bool" where
  "re_match ic r s = (run ic r s \<noteq> [])"

definition seq :: "regex list \<Rightarrow> regex" where
  "seq rs = foldr Seq rs (Literal [])"

definition opt :: "regex \<Rightarrow> regex" where
  "opt r = Repeat 0 (Some 1) r"

subsection \<open>The pattern of \<open>url_validate\<close>\<close>

text \<open>
  The pattern, piece by piece as the source concatenates it:
  \<^verbatim>\<open>^(?:http|ftp)s?://\<close>, then the host, which is a domain
  \<^verbatim>\<open>(?:[A-Z\d](?:[A-Z\d-]{0,61}[A-Z\d])?\.)+(?:[A-Z]{2,6}\.?|[A-Z\d-]{2,}\.?)\<close>, or
  \<^verbatim>\<open>localhost\<close>, or \<^verbatim>\<open>\d{1,3}\.\d{1,3}\.\d{1,3}\.\d{1,3}\<close>, then \<^verbatim>\<open>(?::\d+)?\<close>, then
  \<^verbatim>\<open>(?:/?|[/?]\S+)$\<close>.
\<close>

definition alnum :: "item list" where
  "alnum = [Range CHR ''A'' CHR ''Z'', Digit]"

definition alnum_hyphen :: "item list" where
  "alnum_hyphen = [Range CHR ''A'' CHR ''Z'', Digit, Ch CHR ''-'']"

definition scheme_rx :: regex where
  "scheme_rx = seq [Or (Literal ''http'') (Literal ''ftp''), opt (Literal ''s''), Literal ''://'']"

definition label_rx :: regex where
  "label_rx =
     seq [Class alnum,
          opt (seq [Repeat 0 (Some 61) (Class alnum_hyphen), Class alnum]),
          Literal ''.'']"

definition domain_rx :: regex where
  "domain_rx =
     seq [Repeat 1 None label_rx,
          Or (seq [Repeat 2 (Some 6) (Class [Range CHR ''A'' CHR ''Z'']), opt (Literal ''.'')])
             (seq [Repeat 2 None (Class alnum_hyphen), opt (Literal ''.'')])]"

definition ip_rx :: regex where
  "ip_rx =
     seq [Repeat 1 (Some 3) (Class [Digit]), Literal ''.'',
          Repeat 1 (Some 3) (Class [Digit]), Literal ''.'',
          Repeat 1 (Some 3) (Class [Digit]), Literal ''.'',
          Repeat 1 (Some 3) (Class [Digit])]"

definition host_rx :: regex where
  "host_rx = Or domain_rx (Or (Literal ''localhost'') ip_rx)"

definition port_rx :: regex where
  "port_rx = opt (seq [Literal '':'', Repeat 1 None (Class [Digit])])"

definition path_rx :: regex where
  "path_rx =
     Or (opt (Literal ''/''))
        (seq [Class [Ch CHR ''/'', Ch CHR ''?''], Repeat 1 None (Class [NonSpace])])"

definition url_body :: regex where
  "url_body = seq [scheme_rx, host_rx, port_rx, path_rx]"

definition url_regex :: regex where
  "url_regex = seq [Caret, url_body, Dollar]"

definition url_validate :: "string \<Rightarrow> bool" where
  "url_validate target = (if re_match True url_regex target then True else False)"

subsection \<open>The language of a pattern\<close>

text \<open>
  What a pattern without anchors matches, as a set of strings: the usual meaning of
  literal, set, sequence, alternative and repetition. The anchors consume nothing;
  where they hold is decided by \<open>run\<close>, and \<open>plain\<close> excludes them. \<open>plain\<close> also asks
  that a counted repetition has its bounds in order and that the body of an open
  repetition cannot match the empty string, which holds for every repetition of the
  pattern of \<open>url_validate\<close>.
\<close>

definition conc :: "string set \<Rightarrow> string set \<Rightarrow> string set" where
  "conc A B = {u @ v | u v. u \<in> A \<and> v \<in> B}"

primrec pow :: "string set \<Rightarrow> nat \<Rightarrow> string set" where
  "pow A 0 = {[]}"
| "pow A (Suc n) = conc A (pow A n)"

fun lang :: "bool \<Rightarrow> regex \<Rightarrow> string set" where
  "lang ic (Literal l) = {u. list_all2 (\<lambda>a c. item_matches ic (Ch a) c) l u}"
| "lang ic (Class items) = {[c] | c. list_ex (\<lambda>i. item_matches ic i c) items}"
| "lang ic (Seq a b) = conc (lang ic a) (lang ic b)"
| "lang ic (Or a b) = lang ic a \<union> lang ic b"
| "lang ic (Repeat m None r) = (\<Union>j \<in> {m..}. pow (lang ic r) j)"
| "lang ic (Repeat m (Some n) r) = (\<Union>j \<in> {m..n}. pow (lang ic r) j)"
| "lang ic Caret = {[]}"
| "lang ic Dollar = {[]}"

fun nullable :: "regex \<Rightarrow> bool" where
  "nullable (Literal l) = (l = [])"
| "nullable (Class items) = False"
| "nullable (Seq a b) = (nullable a \<and> nullable b)"
| "nullable (Or a b) = (nullable a \<or> nullable b)"
| "nullable (Repeat m n r) = (m = 0 \<or> nullable r)"
| "nullable Caret = True"
| "nullable Dollar = True"

fun plain :: "regex \<Rightarrow> bool" where
  "plain (Literal l) = True"
| "plain (Class items) = True"
| "plain (Seq a b) = (plain a \<and> plain b)"
| "plain (Or a b) = (plain a \<and> plain b)"
| "plain (Repeat m None r) = (plain r \<and> \<not> nullable r)"
| "plain (Repeat m (Some n) r) = (plain r \<and> m \<le> n)"
| "plain Caret = False"
| "plain Dollar = False"

text \<open>The rests of \<open>s\<close> after a prefix in \<open>A\<close>.\<close>

definition rests :: "string set \<Rightarrow> string \<Rightarrow> string set" where
  "rests A s = {t. \<exists>u \<in> A. s = u @ t}"

subsection \<open>The syntax of a URL in words\<close>

text \<open>
  The strings the spec describes: a scheme \<^verbatim>\<open>http\<close>, \<^verbatim>\<open>https\<close>, \<^verbatim>\<open>ftp\<close> or \<^verbatim>\<open>ftps\<close>
  in any case, \<^verbatim>\<open>://\<close>, a host, an optional port and an optional path or query. A
  host is a domain name, \<^verbatim>\<open>localhost\<close> in any case, or four groups of one to three
  digits separated by dots. A domain name is one or more labels, each followed by a
  dot, and a last part of two or more letters, digits and hyphens with an optional
  final dot; a label has 1 to 63 letters, digits and hyphens and neither begins nor
  ends with a hyphen. A port is a colon and digits; a path or query is a single
  \<^verbatim>\<open>/\<close>, or \<^verbatim>\<open>/\<close> or \<^verbatim>\<open>?\<close> followed by characters that are not white space.
\<close>

definition uppercase :: string where
  "uppercase = ''ABCDEFGHIJKLMNOPQRSTUVWXYZ''"

definition lowercase :: string where
  "lowercase = ''abcdefghijklmnopqrstuvwxyz''"

definition is_letter :: "char \<Rightarrow> bool" where
  "is_letter c = (c \<in> set uppercase \<or> c \<in> set lowercase)"

definition is_alnum :: "char \<Rightarrow> bool" where
  "is_alnum c = (is_letter c \<or> is_digit c)"

definition is_alnum_hyphen :: "char \<Rightarrow> bool" where
  "is_alnum_hyphen c = (is_alnum c \<or> c = CHR ''-'')"

definition is_scheme :: "string \<Rightarrow> bool" where
  "is_scheme sc = (map lower sc \<in> {''http'', ''https'', ''ftp'', ''ftps''})"

definition is_label :: "string \<Rightarrow> bool" where
  "is_label l =
     (l \<noteq> [] \<and> length l \<le> 63 \<and> list_all is_alnum_hyphen l \<and> is_alnum (hd l) \<and> is_alnum (last l))"

definition is_domain :: "string \<Rightarrow> bool" where
  "is_domain h =
     (\<exists>labels tld dot.
        h = concat (map (\<lambda>l. l @ ''.'') labels) @ tld @ dot
        \<and> labels \<noteq> [] \<and> list_all is_label labels
        \<and> 2 \<le> length tld \<and> list_all is_alnum_hyphen tld
        \<and> (dot = [] \<or> dot = ''.''))"

definition is_digit_group :: "string \<Rightarrow> bool" where
  "is_digit_group g = (1 \<le> length g \<and> length g \<le> 3 \<and> list_all is_digit g)"

definition is_dotted_quad :: "string \<Rightarrow> bool" where
  "is_dotted_quad h =
     (\<exists>a b c d. h = a @ ''.'' @ b @ ''.'' @ c @ ''.'' @ d
        \<and> is_digit_group a \<and> is_digit_group b \<and> is_digit_group c \<and> is_digit_group d)"

definition is_host :: "string \<Rightarrow> bool" where
  "is_host h = (is_domain h \<or> map lower h = ''localhost'' \<or> is_dotted_quad h)"

definition is_port :: "string \<Rightarrow> bool" where
  "is_port p = (p = [] \<or> (\<exists>ds. p = '':'' @ ds \<and> ds \<noteq> [] \<and> list_all is_digit ds))"

definition is_path :: "string \<Rightarrow> bool" where
  "is_path q =
     (q = [] \<or> q = ''/''
      \<or> (\<exists>c rest. q = c # rest \<and> (c = CHR ''/'' \<or> c = CHR ''?'')
            \<and> rest \<noteq> [] \<and> list_all (\<lambda>x. \<not> is_space x) rest))"

definition url_syntax :: "string \<Rightarrow> bool" where
  "url_syntax s =
     (\<exists>sc h p q. s = sc @ ''://'' @ h @ p @ q
        \<and> is_scheme sc \<and> is_host h \<and> is_port p \<and> is_path q)"

section \<open>The HTTP client\<close>

text \<open>
  \<^verbatim>\<open>os.path.join(a, *p)\<close> on a POSIX system: a component that starts with the
  separator replaces everything joined so far; otherwise it is appended, with a
  separator unless the path so far is empty or already ends in one.
\<close>

definition sep :: string where
  "sep = ''/''"

fun startswith :: "string \<Rightarrow> string \<Rightarrow> bool" where
  "startswith s [] = True"
| "startswith [] (p # ps) = False"
| "startswith (c # s) (p # ps) = (c = p \<and> startswith s ps)"

definition endswith :: "string \<Rightarrow> string \<Rightarrow> bool" where
  "endswith s p = startswith (rev s) (rev p)"

fun os_path_join :: "string \<Rightarrow> string list \<Rightarrow> string" where
  "os_path_join path [] = path"
| "os_path_join path (b # p) =
     os_path_join
       (if startswith b sep then b
        else if path = [] \<or> endswith path sep then path @ b
        else path @ sep @ b) p"

text \<open>
  A request as the module hands it to \<^verbatim>\<open>requests\<close>, and what the call comes to: the
  status code of the response, or an exception when no response arrives. The exception
  is one of \<^verbatim>\<open>requests\<close> (connection refused, timeout, DNS failure, TLS error, bad URL)
  or one that \<^verbatim>\<open>requests\<close> lets through from below, such as \<^verbatim>\<open>LocationParseError\<close>.
  The server, the network and the library are a function from the requests answered
  so far and the current request to the reply, so a reply may depend on what went
  before.
\<close>

datatype http_method = GET | POST | PUT

record request =
  req_method :: http_method
  req_url :: string
  req_json :: "pydict option"
  req_verify :: bool

datatype reply = Status nat | Failed exc

type_synonym server = "request list \<Rightarrow> request \<Rightarrow> reply"

text \<open>
  One part of an f-string: literal text, or a value before its conversion by
  \<^verbatim>\<open>str\<close>. A printed line is the list of its parts.
\<close>

datatype fstring_part = Text string | Value pyval

datatype event = Sent request | Printed "fstring_part list"

text \<open>
  The world outside the process is the list of the events so far, oldest first:
  the requests that were sent and answered with a status, and the lines printed to
  the console. A call of \<^verbatim>\<open>requests\<close> that raises leaves no entry: whether anything
  left the machine before it raised is not recorded.
\<close>

type_synonym world = "event list"

fun sent :: "world \<Rightarrow> request list" where
  "sent [] = []"
| "sent (Sent r # w) = r # sent w"
| "sent (Printed l # w) = sent w"

fun console :: "world \<Rightarrow> fstring_part list list" where
  "console [] = []"
| "console (Sent r # w) = console w"
| "console (Printed l # w) = l # console w"

definition print :: "fstring_part list \<Rightarrow> world \<Rightarrow> world" where
  "print line w = w @ [Printed line]"

text \<open>
  \<^verbatim>\<open>json.dumps\<close> raises \<^verbatim>\<open>TypeError\<close> on an object that is not JSON data;
  \<^verbatim>\<open>requests\<close> lets that error through, before anything is sent.
\<close>

fun json_serializable :: "pyval \<Rightarrow> bool" where
  "json_serializable PNone = True"
| "json_serializable (PBool b) = True"
| "json_serializable (PInt i) = True"
| "json_serializable (PFloat x) = True"
| "json_serializable (PStr s) = True"
| "json_serializable (PList xs) = list_all json_serializable xs"
| "json_serializable (PDict kvs) = list_all (\<lambda>kv. json_serializable (snd kv)) kvs"
| "json_serializable (PDatetime d) = False"
| "json_serializable (PExtent e) = False"
| "json_serializable (PSummaries s) = False"

definition not_json :: "request \<Rightarrow> bool" where
  "not_json r =
     (case req_json r of
        None \<Rightarrow> False
      | Some body \<Rightarrow> \<not> json_serializable (PDict body))"

text \<open>
  \<^verbatim>\<open>requests\<close> strips leading white space from the URL and sends a request only
  through a connection adapter; a session has one for the prefix \<^verbatim>\<open>http://\<close> and one
  for \<^verbatim>\<open>https://\<close>, compared in lower case. For any other URL the call raises before
  anything is sent. While it prepares the URL it raises \<^verbatim>\<open>MissingSchema\<close> for a URL
  without a colon, which has no scheme (\<^verbatim>\<open>/c1\<close>), and \<^verbatim>\<open>InvalidURL\<close> for \<^verbatim>\<open>http:\<close> or
  \<^verbatim>\<open>https:\<close> without the two slashes, which has no host. It encodes the body next, and
  then finds no adapter and raises \<^verbatim>\<open>InvalidSchema\<close> (\<^verbatim>\<open>ftp://h\<close>).
\<close>

definition lstrip :: "string \<Rightarrow> string" where
  "lstrip s = dropWhile is_space s"

definition has_adapter :: "string \<Rightarrow> bool" where
  "has_adapter url =
     (startswith (map lower (lstrip url)) ''http://''
      \<or> startswith (map lower (lstrip url)) ''https://'')"

definition refusal :: "request \<Rightarrow> exc" where
  "refusal r =
     (if CHR '':'' \<notin> set (lstrip (req_url r)) then RequestException MissingSchema
      else if startswith (map lower (lstrip (req_url r))) ''http:''
              \<or> startswith (map lower (lstrip (req_url r))) ''https:''
           then RequestException InvalidURL
      else if not_json r then TypeError
      else RequestException InvalidSchema)"

text \<open>
  What a call of \<^verbatim>\<open>requests.request\<close> comes to. A URL without adapter never gets a
  status: the call raises the exception the environment names for it (the parsing of
  the URL, which is not modelled further, may find another fault first), and the one
  of \<open>refusal\<close> when the environment names none. With an adapter, a body that is not
  JSON data raises \<^verbatim>\<open>TypeError\<close>, and otherwise the environment answers.
\<close>

definition answer :: "server \<Rightarrow> request list \<Rightarrow> request \<Rightarrow> reply" where
  "answer srv history r =
     (if \<not> has_adapter (req_url r) then
        (case srv history r of
           Failed e \<Rightarrow> Failed e
         | Status s \<Rightarrow> Failed (refusal r))
      else if not_json r then Failed TypeError
      else srv history r)"

definition requests_request :: "server \<Rightarrow> request \<Rightarrow> world \<Rightarrow> (exc + nat) \<times> world" where
  "requests_request srv r w =
     (case answer srv (sent w) r of
        Failed e \<Rightarrow> (Inl e, w)
      | Status s \<Rightarrow> (Inr s, w @ [Sent r]))"

definition get_request :: "string \<Rightarrow> bool \<Rightarrow> request" where
  "get_request url verify =
     \<lparr>req_method = GET, req_url = url, req_json = None, req_verify = verify\<rparr>"

definition post_request :: "string \<Rightarrow> pydict \<Rightarrow> bool \<Rightarrow> request" where
  "post_request url body verify =
     \<lparr>req_method = POST, req_url = url, req_json = Some body, req_verify = verify\<rparr>"

definition put_request :: "string \<Rightarrow> pydict \<Rightarrow> bool \<Rightarrow> request" where
  "put_request url body verify =
     \<lparr>req_method = PUT, req_url = url, req_json = Some body, req_verify = verify\<rparr>"

text \<open>
  \<^verbatim>\<open>Response.raise_for_status()\<close> raises \<^verbatim>\<open>HTTPError\<close> for a client error
  (400 to 499) or a server error (500 to 599) and returns \<^verbatim>\<open>None\<close> otherwise.
\<close>

definition raise_for_status :: "nat \<Rightarrow> exc + unit" where
  "raise_for_status status_code =
     (if 400 \<le> status_code \<and> status_code < 600
      then Inl (RequestException (HTTPError status_code))
      else Inr ())"

section \<open>Reachability and existence checks\<close>

text \<open>
  The \<^verbatim>\<open>except\<close> clause of \<open>stac_host_reachable\<close> names \<^verbatim>\<open>RequestException\<close> and
  its subclass \<^verbatim>\<open>ConnectionError\<close>; any other exception passes through it.
\<close>

definition stac_host_reachable :: "server \<Rightarrow> string \<Rightarrow> world \<Rightarrow> (exc + bool) \<times> world" where
  "stac_host_reachable srv url w =
     (let (registry, w1) = requests_request srv (get_request url True) w;
          tried = (case registry of
                     Inl e \<Rightarrow> Inl e
                   | Inr status_code \<Rightarrow>
                       (case raise_for_status status_code of
                          Inl e \<Rightarrow> Inl e
                        | Inr u \<Rightarrow> Inr True))
      in case tried of
           Inr b \<Rightarrow> (Inr b, w1)
         | Inl e \<Rightarrow>
             if isinstance_RequestException e \<or> isinstance_ConnectionError e
             then (Inr False, w1)
             else (Inl e, w1))"

definition stac_collection_exists ::
  "server \<Rightarrow> string \<Rightarrow> string \<Rightarrow> world \<Rightarrow> (exc + bool) \<times> world" where
  "stac_collection_exists srv stac_host collection_id w =
     (let (r, w1) = requests_request srv
                      (get_request (os_path_join stac_host [''collections'', collection_id]) False) w
      in case r of
           Inl e \<Rightarrow> (Inl e, w1)
         | Inr status_code \<Rightarrow> (Inr (status_code = 200), w1))"

section \<open>Publishing a collection\<close>

text \<open>
  The module binds the names \<^verbatim>\<open>os\<close>, \<^verbatim>\<open>re\<close>, \<^verbatim>\<open>datetime\<close>, \<^verbatim>\<open>Any\<close>, \<^verbatim>\<open>pystac\<close>,
  \<^verbatim>\<open>requests\<close> and its own six functions. \<^verbatim>\<open>bcolors\<close> is bound nowhere, neither
  by an import nor by a definition, and it is no builtin: reading an attribute of it
  raises \<^verbatim>\<open>NameError\<close>.
\<close>

definition bcolors :: "string \<Rightarrow> exc + string" where
  "bcolors attribute = Inl (NameError ''bcolors'')"

text \<open>
  The two f-strings of \<open>post_stac_collection\<close>. Python evaluates the parts of an
  f-string from left to right, and the argument of \<^verbatim>\<open>print\<close> before the call.
\<close>

definition pushed_line :: "pyval \<Rightarrow> string \<Rightarrow> nat \<Rightarrow> exc + fstring_part list" where
  "pushed_line collection_id stac_host status_code =
     (case bcolors ''OKGREEN'' of
        Inl e \<Rightarrow> Inl e
      | Inr okgreen \<Rightarrow>
          (case bcolors ''ENDC'' of
             Inl e \<Rightarrow> Inl e
           | Inr endc \<Rightarrow>
               Inr [Text okgreen, Text ''[INFO] Pushed STAC collection ['', Value collection_id,
                    Text ''] to ['', Text stac_host, Text ''] ('',
                    Value (PInt (int status_code)), Text '')'', Text endc]))"

definition exists_line :: "pyval \<Rightarrow> string \<Rightarrow> nat \<Rightarrow> exc + fstring_part list" where
  "exists_line collection_id stac_host status_code =
     (case bcolors ''WARNING'' of
        Inl e \<Rightarrow> Inl e
      | Inr warning \<Rightarrow>
          (case bcolors ''ENDC'' of
             Inl e \<Rightarrow> Inl e
           | Inr endc \<Rightarrow>
               Inr [Text warning, Text ''[INFO] STAC collection ['', Value collection_id,
                    Text ''] already exists on ['', Text stac_host, Text ''] ('',
                    Value (PInt (int status_code)), Text ''), updating..'', Text endc]))"

definition post_stac_collection ::
  "server \<Rightarrow> string \<Rightarrow> pydict \<Rightarrow> world \<Rightarrow> (exc + unit) \<times> world" where
  "post_stac_collection srv stac_host json_data w =
     (case map_of json_data ''id'' of
        None \<Rightarrow> (Inl (KeyError (PStr ''id'')), w)
      | Some collection_id \<Rightarrow>
          (let (r, w1) = requests_request srv
                           (post_request (os_path_join stac_host [''collections'']) json_data False) w
           in case r of
                Inl e \<Rightarrow> (Inl e, w1)
              | Inr status_code \<Rightarrow>
                  if status_code = 200 then
                    (case pushed_line collection_id stac_host status_code of
                       Inl e \<Rightarrow> (Inl e, w1)
                     | Inr line \<Rightarrow> (Inr (), print line w1))
                  else if status_code = 409 then
                    (case exists_line collection_id stac_host status_code of
                       Inl e \<Rightarrow> (Inl e, w1)
                     | Inr line \<Rightarrow>
                         (let w2 = print line w1;
                              (r2, w3) = requests_request srv
                                           (put_request (os_path_join stac_host [''collections''])
                                              json_data False) w2
                          in case r2 of
                               Inl e \<Rightarrow> (Inl e, w3)
                             | Inr status_code2 \<Rightarrow> (raise_for_status status_code2, w3)))
                  else (raise_for_status status_code, w1)))"

section \<open>Building a collection\<close>

subsection \<open>Parsing a date\<close>

text \<open>
  \<^verbatim>\<open>datetime.strptime(s, "%Y-%m-%d")\<close> turns the format into the regular expression
  \<^verbatim>\<open>(?P<Y>\d\d\d\d)-(?P<m>1[0-2]|0[1-9]|[1-9])-(?P<d>3[0-1]|[1-2]\d|0[1-9]|[1-9]| [1-9])\<close>,
  raises \<^verbatim>\<open>ValueError\<close> unless it matches the whole string, converts the three groups
  to numbers and builds the date, which raises \<^verbatim>\<open>ValueError\<close> again for a year 0 or a
  day the month does not have. Neither the month nor the day pattern contains a
  hyphen, so the month is what stands between the two hyphens. Characters are ASCII
  here: digits of other scripts, which \<^verbatim>\<open>\d\<close> also accepts, are not modelled.
\<close>

definition digit_val :: "char \<Rightarrow> nat" where
  "digit_val c = of_char c - 48"

fun month_of :: "string \<Rightarrow> nat option" where
  "month_of [a, b] =
     (if a = CHR ''1'' \<and> b \<in> set ''012'' then Some (10 + digit_val b)
      else if a = CHR ''0'' \<and> b \<in> set ''123456789'' then Some (digit_val b)
      else None)"
| "month_of [a] = (if a \<in> set ''123456789'' then Some (digit_val a) else None)"
| "month_of _ = None"

fun day_of :: "string \<Rightarrow> nat option" where
  "day_of [a, b] =
     (if a = CHR ''3'' \<and> b \<in> set ''01'' then Some (30 + digit_val b)
      else if a \<in> set ''12'' \<and> is_digit b then Some (10 * digit_val a + digit_val b)
      else if a = CHR ''0'' \<and> b \<in> set ''123456789'' then Some (digit_val b)
      else if a = CHR '' '' \<and> b \<in> set ''123456789'' then Some (digit_val b)
      else None)"
| "day_of [a] = (if a \<in> set ''123456789'' then Some (digit_val a) else None)"
| "day_of _ = None"

definition is_leap :: "nat \<Rightarrow> bool" where
  "is_leap y = (y mod 4 = 0 \<and> (y mod 100 \<noteq> 0 \<or> y mod 400 = 0))"

definition days_in_month :: "nat \<Rightarrow> nat \<Rightarrow> nat" where
  "days_in_month y m =
     (if m = 2 then (if is_leap y then 29 else 28)
      else if m \<in> {4, 6, 9, 11} then 30 else 31)"

definition strptime_Ymd :: "string \<Rightarrow> exc + datetime" where
  "strptime_Ymd s =
     (case s of
        y1 # y2 # y3 # y4 # h # rest \<Rightarrow>
          if is_digit y1 \<and> is_digit y2 \<and> is_digit y3 \<and> is_digit y4 \<and> h = CHR ''-'' then
            (case dropWhile (\<lambda>c. c \<noteq> CHR ''-'') rest of
               [] \<Rightarrow> Inl ValueError
             | h2 # d \<Rightarrow>
                 (case month_of (takeWhile (\<lambda>c. c \<noteq> CHR ''-'') rest) of
                    None \<Rightarrow> Inl ValueError
                  | Some month \<Rightarrow>
                      (case day_of d of
                         None \<Rightarrow> Inl ValueError
                       | Some day \<Rightarrow>
                           (let year = 1000 * digit_val y1 + 100 * digit_val y2
                                         + 10 * digit_val y3 + digit_val y4
                            in if year = 0 \<or> days_in_month year month < day
                               then Inl ValueError
                               else Inr \<lparr>dt_year = year, dt_month = month, dt_day = day,
                                         dt_hour = 0, dt_minute = 0, dt_second = 0\<rparr>))))
          else Inl ValueError
      | _ \<Rightarrow> Inl ValueError)"

text \<open>\<^verbatim>\<open>strptime\<close> raises \<^verbatim>\<open>TypeError\<close> when its first argument is not a string.\<close>

fun strptime :: "pyval \<Rightarrow> exc + pyval" where
  "strptime (PStr s) = (case strptime_Ymd s of Inl e \<Rightarrow> Inl e | Inr d \<Rightarrow> Inr (PDatetime d))"
| "strptime _ = Inl TypeError"

text \<open>
  \<^verbatim>\<open>x[i]\<close> for a literal index \<open>i\<close> that is not negative: an element of a list, a
  one-character string of a string, a missing key of a mapping with string keys, and
  \<^verbatim>\<open>TypeError\<close> for a value that cannot be subscripted.
\<close>

fun subscript :: "pyval \<Rightarrow> nat \<Rightarrow> exc + pyval" where
  "subscript (PList xs) i = (if i < length xs then Inr (xs ! i) else Inl IndexError)"
| "subscript (PStr s) i = (if i < length s then Inr (PStr [s ! i]) else Inl IndexError)"
| "subscript (PDict kvs) i = Inl (KeyError (PInt (int i)))"
| "subscript _ i = Inl TypeError"

text \<open>
  One bound of the temporal extent, as lines 66 and 67 of the source compute it:
  \<^verbatim>\<open>datetime.strptime(tmp[i], "%Y-%m-%d") if tmp[i] is not None else None\<close>.
\<close>

definition temporal_bound :: "pyval \<Rightarrow> nat \<Rightarrow> exc + datetime option" where
  "temporal_bound tmp i =
     (case subscript tmp i of
        Inl e \<Rightarrow> Inl e
      | Inr b \<Rightarrow>
          if b \<noteq> PNone then
            (case strptime b of
               Inl e \<Rightarrow> Inl e
             | Inr (PDatetime d) \<Rightarrow> Inr (Some d)
             | Inr _ \<Rightarrow> Inl TypeError)
          else Inr None)"

subsection \<open>The pystac objects\<close>

text \<open>
  Modelled from the spec: the \<^verbatim>\<open>pystac\<close> library is not part of the repository.
  The spec describes the Collection Document as the JSON representation of a
  Collection with its id, an extent object that combines the spatial and the temporal
  extent, and the summaries; the definitions below follow it and the documented
  behaviour of \<^verbatim>\<open>pystac\<close> 1.x.

  \<^verbatim>\<open>SpatialExtent(bboxes)\<close> stores the list of bounding boxes; when the first
  element of the list is a float it takes the argument for a single box and wraps it.
  \<^verbatim>\<open>TemporalExtent\<close> does the same for a first element that is a datetime, which a
  list of pairs never has.
\<close>

definition SpatialExtent_init :: "pyval \<Rightarrow> exc + spatial_extent" where
  "SpatialExtent_init bboxes =
     (case bboxes of
        PList [] \<Rightarrow> Inl IndexError
      | PList (PFloat x # rest) \<Rightarrow> Inr (SpatialExtent (PList [bboxes]))
      | _ \<Rightarrow> Inr (SpatialExtent bboxes))"

text \<open>
  \<^verbatim>\<open>datetime_to_str\<close> of \<^verbatim>\<open>pystac\<close>: a naive datetime is taken as UTC and written in
  ISO 8601 with the suffix \<^verbatim>\<open>Z\<close>. \<open>dec w n\<close> is the decimal numeral of \<open>n\<close> in \<open>w\<close>
  digits, for a number that fits.
\<close>

fun dec :: "nat \<Rightarrow> nat \<Rightarrow> string" where
  "dec 0 n = []"
| "dec (Suc w) n = dec w (n div 10) @ [''0123456789'' ! (n mod 10)]"

definition datetime_to_str :: "datetime \<Rightarrow> string" where
  "datetime_to_str d =
     dec 4 (dt_year d) @ ''-'' @ dec 2 (dt_month d) @ ''-'' @ dec 2 (dt_day d) @ ''T''
       @ dec 2 (dt_hour d) @ '':'' @ dec 2 (dt_minute d) @ '':'' @ dec 2 (dt_second d) @ ''Z''"

definition encode_bound :: "datetime option \<Rightarrow> pyval" where
  "encode_bound b = (case b of None \<Rightarrow> PNone | Some d \<Rightarrow> PStr (datetime_to_str d))"

fun SpatialExtent_to_dict :: "spatial_extent \<Rightarrow> pyval" where
  "SpatialExtent_to_dict (SpatialExtent bboxes) = PDict [(''bbox'', bboxes)]"

fun TemporalExtent_to_dict :: "temporal_extent \<Rightarrow> pyval" where
  "TemporalExtent_to_dict (TemporalExtent intervals) =
     PDict [(''interval'',
             PList (map (\<lambda>i. PList [encode_bound (fst i), encode_bound (snd i)]) intervals))]"

fun Extent_to_dict :: "extent \<Rightarrow> pyval" where
  "Extent_to_dict (Extent spatial temporal) =
     PDict [(''spatial'', SpatialExtent_to_dict spatial),
            (''temporal'', TemporalExtent_to_dict temporal)]"

text \<open>
  A \<^verbatim>\<open>Summaries\<close> object is empty when it has no entry with a non-empty key; its
  dictionary form is the mapping it holds.
\<close>

fun Summaries_is_empty :: "summaries \<Rightarrow> bool" where
  "Summaries_is_empty (Summaries d) = list_all (\<lambda>kv. fst kv = []) d"

fun Summaries_to_dict :: "summaries \<Rightarrow> pyval" where
  "Summaries_to_dict (Summaries d) = PDict d"

text \<open>
  Modelled from the spec: the constructor \<^verbatim>\<open>pystac.Collection\<close> and its \<^verbatim>\<open>to_dict\<close>
  are not part of the repository. The spec has the builder forward the keys of the
  mapping to the Collection constructor and fail when required constructor fields
  are missing.

  The call \<^verbatim>\<open>pystac.Collection(id=collection_id, **collection_info)\<close> binds the
  keyword arguments to the parameters of the constructor. Python raises
  \<^verbatim>\<open>TypeError\<close> when the mapping has the key \<^verbatim>\<open>id\<close> as well (two values for one
  parameter), when a key is not the name of a parameter, and when the required
  parameter \<^verbatim>\<open>description\<close> or \<^verbatim>\<open>extent\<close> has no value.

  The parameters \<^verbatim>\<open>href\<close>, \<^verbatim>\<open>catalog_type\<close>, \<^verbatim>\<open>providers\<close> and \<^verbatim>\<open>assets\<close> take
  objects of the library. Covered here are their default \<^verbatim>\<open>None\<close>, the empty list
  for \<^verbatim>\<open>providers\<close> and the empty mapping for \<^verbatim>\<open>assets\<close>, and \<^verbatim>\<open>extra_fields\<close> as
  \<^verbatim>\<open>None\<close> or a mapping. Any other value gives \<open>Unmodelled\<close>.
\<close>

definition Collection_params :: "string list" where
  "Collection_params =
     [''description'', ''extent'', ''title'', ''stac_extensions'', ''href'', ''extra_fields'',
      ''catalog_type'', ''license'', ''keywords'', ''providers'', ''summaries'', ''assets'']"

record collection =
  c_id :: string
  c_extent :: extent
  c_summaries :: summaries
  c_extra_fields :: pydict
  c_args :: pydict

definition only_None :: "pydict \<Rightarrow> string \<Rightarrow> bool" where
  "only_None kwargs k = (map_of kwargs k = None \<or> map_of kwargs k = Some PNone)"

definition None_or :: "pyval \<Rightarrow> pydict \<Rightarrow> string \<Rightarrow> bool" where
  "None_or v kwargs k = (only_None kwargs k \<or> map_of kwargs k = Some v)"

definition Collection_init :: "string \<Rightarrow> pydict \<Rightarrow> exc + collection" where
  "Collection_init ident kwargs =
     (if map_of kwargs ''id'' \<noteq> None then Inl TypeError
      else if \<not> list_all (\<lambda>kv. fst kv \<in> set Collection_params) kwargs then Inl TypeError
      else if map_of kwargs ''description'' = None then Inl TypeError
      else if \<not> (only_None kwargs ''href'' \<and> only_None kwargs ''catalog_type''
                 \<and> None_or (PList []) kwargs ''providers''
                 \<and> None_or (PDict []) kwargs ''assets'')
           then Inl (Unmodelled ''Collection'')
      else
        (case (map_of kwargs ''extent'', map_of kwargs ''summaries'') of
           (None, _) \<Rightarrow> Inl TypeError
         | (Some (PExtent e), Some (PSummaries s)) \<Rightarrow>
             (case map_of kwargs ''extra_fields'' of
                None \<Rightarrow> Inr \<lparr>c_id = ident, c_extent = e, c_summaries = s,
                              c_extra_fields = [], c_args = kwargs\<rparr>
              | Some PNone \<Rightarrow> Inr \<lparr>c_id = ident, c_extent = e, c_summaries = s,
                                    c_extra_fields = [], c_args = kwargs\<rparr>
              | Some (PDict x) \<Rightarrow> Inr \<lparr>c_id = ident, c_extent = e, c_summaries = s,
                                        c_extra_fields = x, c_args = kwargs\<rparr>
              | Some _ \<Rightarrow> Inl (Unmodelled ''Collection''))
         | _ \<Rightarrow> Inl (Unmodelled ''Collection'')))"

text \<open>
  Modelled from the spec: of the dictionary that \<^verbatim>\<open>Collection.to_dict()\<close> returns,
  the entries \<^verbatim>\<open>id\<close>, \<^verbatim>\<open>description\<close>, \<^verbatim>\<open>title\<close>, \<^verbatim>\<open>license\<close>, \<^verbatim>\<open>extent\<close> and
  \<^verbatim>\<open>summaries\<close>, which are the ones the spec names. \<^verbatim>\<open>to_dict\<close> writes \<^verbatim>\<open>id\<close> and
  \<^verbatim>\<open>description\<close> first, then copies every entry of \<^verbatim>\<open>extra_fields\<close> into the
  dictionary, then sets \<^verbatim>\<open>title\<close> when the title is not \<^verbatim>\<open>None\<close>, and then
  \<^verbatim>\<open>extent\<close>, \<^verbatim>\<open>license\<close> and, when the summaries are not empty, \<^verbatim>\<open>summaries\<close>. So an
  entry of \<^verbatim>\<open>extra_fields\<close> named \<^verbatim>\<open>id\<close> or \<^verbatim>\<open>description\<close> replaces the one written
  first, and one named \<^verbatim>\<open>title\<close> shows when the title is \<^verbatim>\<open>None\<close>. \<open>doc_license\<close> is
  \<open>None\<close> when the caller gave no licence: \<^verbatim>\<open>to_dict\<close> then writes the default of the
  library, which depends on its version. The other entries (\<^verbatim>\<open>type\<close>,
  \<^verbatim>\<open>stac_version\<close>, \<^verbatim>\<open>links\<close> and the optional ones) are left out.
\<close>

record document =
  doc_id :: pyval
  doc_description :: pyval
  doc_title :: "pyval option"
  doc_license :: "pyval option"
  doc_extent :: pyval
  doc_summaries :: "pyval option"

definition Collection_to_dict :: "collection \<Rightarrow> document" where
  "Collection_to_dict c =
     \<lparr>doc_id = (case map_of (c_extra_fields c) ''id'' of
                  None \<Rightarrow> PStr (c_id c)
                | Some v \<Rightarrow> v),
      doc_description = (case map_of (c_extra_fields c) ''description'' of
                           None \<Rightarrow> (case map_of (c_args c) ''description'' of
                                      None \<Rightarrow> PNone
                                    | Some d \<Rightarrow> d)
                         | Some v \<Rightarrow> v),
      doc_title = (case map_of (c_args c) ''title'' of
                     None \<Rightarrow> map_of (c_extra_fields c) ''title''
                   | Some t \<Rightarrow> if t = PNone then map_of (c_extra_fields c) ''title'' else Some t),
      doc_license = map_of (c_args c) ''license'',
      doc_extent = Extent_to_dict (c_extent c),
      doc_summaries = (if Summaries_is_empty (c_summaries c) then None
                       else Some (Summaries_to_dict (c_summaries c)))\<rparr>"

subsection \<open>The builder\<close>

text \<open>
  \<open>create_stac_collection\<close> returns its result together with the caller's mapping as
  the call leaves it: \<^verbatim>\<open>pop\<close> removes a key from the mapping the caller passed, and
  the two assignments write into it, also when the call ends in an exception later.
\<close>

definition pop :: "string \<Rightarrow> pydict \<Rightarrow> (exc + pyval) \<times> pydict" where
  "pop k d =
     (case map_of d k of
        None \<Rightarrow> (Inl (KeyError (PStr k)), d)
      | Some v \<Rightarrow> (Inr v, AList.delete k d))"

definition create_stac_collection :: "string \<Rightarrow> pydict \<Rightarrow> (exc + document) \<times> pydict" where
  "create_stac_collection collection_id collection_info =
     (case pop ''spatialextent'' collection_info of
        (Inl e, info1) \<Rightarrow> (Inl e, info1)
      | (Inr sp, info1) \<Rightarrow>
     (case SpatialExtent_init (PList [sp]) of
        Inl e \<Rightarrow> (Inl e, info1)
      | Inr sp_extent \<Rightarrow>
     (case pop ''temporalextent'' info1 of
        (Inl e, info2) \<Rightarrow> (Inl e, info2)
      | (Inr tmp, info2) \<Rightarrow>
     (case temporal_bound tmp 0 of
        Inl e \<Rightarrow> (Inl e, info2)
      | Inr t0 \<Rightarrow>
     (case temporal_bound tmp 1 of
        Inl e \<Rightarrow> (Inl e, info2)
      | Inr t1 \<Rightarrow>
     (let tmp_extent = TemporalExtent [(t0, t1)];
          info3 = AList.update ''extent'' (PExtent (Extent sp_extent tmp_extent)) info2;
          info4 = AList.update ''summaries''
                    (PSummaries (Summaries [(''needs_summaries_update'', PList [PStr ''true''])]))
                    info3
      in case Collection_init collection_id info4 of
           Inl e \<Rightarrow> (Inl e, info4)
         | Inr collection \<Rightarrow> (Inr (Collection_to_dict collection), info4)))))))"

text \<open>
  The strict format of the spec, \<^verbatim>\<open>YYYY-MM-DD\<close>: four digits, a hyphen, two digits, a
  hyphen, two digits.
\<close>

definition strict_YYYY_MM_DD :: "string \<Rightarrow> bool" where
  "strict_YYYY_MM_DD s =
     (case s of
        [y1, y2, y3, y4, h1, m1, m2, h2, d1, d2] \<Rightarrow>
          list_all is_digit [y1, y2, y3, y4, m1, m2, d1, d2] \<and> h1 = CHR ''-'' \<and> h2 = CHR ''-''
      | _ \<Rightarrow> False)"

section \<open>Test doubles\<close>

text \<open>
  A server that answers the \<open>n\<close>-th request with the \<open>n\<close>-th reply of a script
  and refuses the connection once the script is used up.
\<close>

definition scripted :: "reply list \<Rightarrow> server" where
  "scripted replies history r =
     (if length history < length replies then replies ! length history
      else Failed (RequestException ConnectionError))"

text \<open>The descriptor of the spec's example, without and with further keys.\<close>

definition world_extent :: pyval where
  "world_extent = PList [PInt (- 180), PInt (- 90), PInt 180, PInt 90]"

definition example_info :: "pyval \<Rightarrow> pydict" where
  "example_info tmp =
     [(''title'', PStr ''Example''), (''description'', PStr ''An example collection''),
      (''spatialextent'', world_extent), (''temporalextent'', tmp),
      (''license'', PStr ''MIT'')]"

section \<open>Descriptors\<close>

text \<open>
  A descriptor of plain data: it has a \<^verbatim>\<open>description\<close>, no key \<^verbatim>\<open>id\<close> and no key
  other than the two extent keys and the parameters of the constructor; \<^verbatim>\<open>href\<close> and
  \<^verbatim>\<open>catalog_type\<close> are absent or \<^verbatim>\<open>None\<close>, \<^verbatim>\<open>providers\<close> is absent, \<^verbatim>\<open>None\<close> or the
  empty list, \<^verbatim>\<open>assets\<close> is absent, \<^verbatim>\<open>None\<close> or the empty mapping, and
  \<^verbatim>\<open>extra_fields\<close> is absent, \<^verbatim>\<open>None\<close> or a mapping.
\<close>

definition plain_descriptor :: "pydict \<Rightarrow> bool" where
  "plain_descriptor info =
     (map_of info ''description'' \<noteq> None
      \<and> map_of info ''id'' = None
      \<and> list_all (\<lambda>kv. fst kv \<in> set (''spatialextent'' # ''temporalextent'' # Collection_params)) info
      \<and> only_None info ''href'' \<and> only_None info ''catalog_type''
      \<and> None_or (PList []) info ''providers''
      \<and> None_or (PDict []) info ''assets''
      \<and> (case map_of info ''extra_fields'' of
            None \<Rightarrow> True
          | Some PNone \<Rightarrow> True
          | Some (PDict x) \<Rightarrow> True
          | Some _ \<Rightarrow> False))"

text \<open>The entry that the \<^verbatim>\<open>extra_fields\<close> of a descriptor has under a key, if any.\<close>

definition extra_field :: "pydict \<Rightarrow> string \<Rightarrow> pyval option" where
  "extra_field info k =
     (case map_of info ''extra_fields'' of
        Some (PDict x) \<Rightarrow> map_of x k
      | _ \<Rightarrow> None)"


text \<open>A temporal bound of the declared type: \<^verbatim>\<open>None\<close> or a string.\<close>

fun optional_string :: "pyval \<Rightarrow> bool" where
  "optional_string PNone = True"
| "optional_string (PStr s) = True"
| "optional_string _ = False"

fun rejected_date :: "pyval \<Rightarrow> bool" where
  "rejected_date (PStr s) = (case strptime_Ymd s of Inl e \<Rightarrow> True | Inr d \<Rightarrow> False)"
| "rejected_date _ = False"





text \<open>The placeholder summaries the builder attaches.\<close>

definition placeholder :: pydict where
  "placeholder = [(''needs_summaries_update'', PList [PStr ''true''])]"

text \<open>
  The caller's mapping after a call that reached the constructor: the two extent keys
  are gone, and \<^verbatim>\<open>extent\<close> and \<^verbatim>\<open>summaries\<close> hold the objects the builder made.
\<close>

definition final_info :: "pydict \<Rightarrow> extent \<Rightarrow> pydict" where
  "final_info info e =
     AList.update ''summaries'' (PSummaries (Summaries placeholder))
       (AList.update ''extent'' (PExtent e)
          (AList.delete ''temporalextent'' (AList.delete ''spatialextent'' info)))"

text \<open>The list of boxes \<^verbatim>\<open>SpatialExtent([sp])\<close> stores.\<close>

definition bboxes_of :: "pyval \<Rightarrow> pyval" where
  "bboxes_of sp = (case sp of PFloat x \<Rightarrow> PList [PList [sp]] | _ \<Rightarrow> PList [sp])"

section \<open>Properties of the URL validator\<close>

lemma rests_conc: "rests (conc A B) s = (\<Union>t \<in> rests A s. rests B t)"
proof (intro set_eqI iffI)
  fix t assume "t \<in> rests (conc A B) s"
  then obtain u v where "u \<in> A" "v \<in> B" "s = u @ (v @ t)"
    by (auto simp: rests_def conc_def)
  then have "v @ t \<in> rests A s" and "t \<in> rests B (v @ t)"
    by (auto simp: rests_def)
  then show "t \<in> (\<Union>t \<in> rests A s. rests B t)" by blast
next
  fix t assume "t \<in> (\<Union>t \<in> rests A s. rests B t)"
  then obtain u v where "u \<in> A" "v \<in> B" "s = (u @ v) @ t"
    by (auto simp: rests_def)
  then have "u @ v \<in> conc A B" by (auto simp: conc_def)
  then show "t \<in> rests (conc A B) s"
    using \<open>s = (u @ v) @ t\<close> unfolding rests_def by blast
qed

lemma rests_Un: "rests (A \<union> B) s = rests A s \<union> rests B s"
  by (auto simp: rests_def)

lemma rests_UN: "rests (\<Union>j \<in> J. F j) s = (\<Union>j \<in> J. rests (F j) s)"
  by (auto simp: rests_def)

lemma rests_empty_word: "rests {[]} s = {s}"
  by (auto simp: rests_def)

lemma rests_pow_0: "rests (pow A 0) s = {s}"
  by (simp add: rests_empty_word)

lemma rests_pow_Suc: "rests (pow A (Suc j)) s = (\<Union>t \<in> rests A s. rests (pow A j) t)"
  by (simp add: rests_conc)

lemma literal_rest_lang:
  "set (literal_rest ic l s) = rests {u. list_all2 (\<lambda>a c. item_matches ic (Ch a) c) l u} s"
proof (induction ic l s rule: literal_rest.induct)
  case (1 ic s)
  then show ?case by (auto simp: rests_def)
next
  case (2 ic a l)
  then show ?case by (auto simp: rests_def list_all2_Cons1)
next
  case (3 ic a l c s)
  then show ?case
    by (auto simp: rests_def list_all2_Cons1 Cons_eq_append_conv)
qed

lemma UN_from_0:
  fixes F :: "nat \<Rightarrow> 'a set"
  shows "(\<Union>j \<in> {0..k}. F (Suc j)) \<union> F 0 = (\<Union>j \<in> {0..Suc k}. F j)"
proof (intro set_eqI iffI)
  fix x assume "x \<in> (\<Union>j \<in> {0..k}. F (Suc j)) \<union> F 0"
  then show "x \<in> (\<Union>j \<in> {0..Suc k}. F j)" by auto
next
  fix x assume "x \<in> (\<Union>j \<in> {0..Suc k}. F j)"
  then obtain j where "j \<le> Suc k" "x \<in> F j" by auto
  then show "x \<in> (\<Union>j \<in> {0..k}. F (Suc j)) \<union> F 0" by (cases j) auto
qed

lemma UN_from_Suc:
  fixes F :: "nat \<Rightarrow> 'a set"
  shows "(\<Union>j \<in> {m..m + k}. F (Suc j)) = (\<Union>j \<in> {Suc m..Suc m + k}. F j)"
proof (intro set_eqI iffI)
  fix x assume "x \<in> (\<Union>j \<in> {m..m + k}. F (Suc j))"
  then show "x \<in> (\<Union>j \<in> {Suc m..Suc m + k}. F j)" by auto
next
  fix x assume "x \<in> (\<Union>j \<in> {Suc m..Suc m + k}. F j)"
  then obtain j where "Suc m \<le> j" "j \<le> Suc m + k" "x \<in> F j" by auto
  then show "x \<in> (\<Union>j \<in> {m..m + k}. F (Suc j))" by (cases j) auto
qed

lemma rep_rests:
  assumes "\<And>s. set (f s) = rests A s"
  shows "set (rep f m k s) = (\<Union>j \<in> {m..m + k}. rests (pow A j) s)"
  using assms
proof (induction f m k s rule: rep.induct)
  case (1 f s)
  then show ?case by (simp add: rests_empty_word)
next
  case (2 f k s)
  have f: "set (f s) = rests A s" using "2.prems" by simp
  have ih: "set (rep f 0 k t) = (\<Union>j \<in> {0..k}. rests (pow A j) t)" if "t \<in> rests A s" for t
    using "2.IH" [of t] "2.prems" that f by simp
  have "set (rep f 0 (Suc k) s) = (\<Union>t \<in> rests A s. set (rep f 0 k t)) \<union> {s}"
    using f by auto
  also have "\<dots> = (\<Union>t \<in> rests A s. \<Union>j \<in> {0..k}. rests (pow A j) t) \<union> {s}"
    using ih by simp
  also have "\<dots> = (\<Union>j \<in> {0..k}. rests (pow A (Suc j)) s) \<union> rests (pow A 0) s"
    unfolding rests_pow_Suc rests_pow_0 by blast
  also have "\<dots> = (\<Union>j \<in> {0..Suc k}. rests (pow A j) s)"
    by (rule UN_from_0)
  finally show ?case by simp
next
  case (3 f m k s)
  have f: "set (f s) = rests A s" using "3.prems" by simp
  have ih: "set (rep f m k t) = (\<Union>j \<in> {m..m + k}. rests (pow A j) t)" if "t \<in> rests A s" for t
    using "3.IH" [of t] "3.prems" that f by simp
  have "set (rep f (Suc m) k s) = (\<Union>t \<in> rests A s. set (rep f m k t))"
    using f by auto
  also have "\<dots> = (\<Union>t \<in> rests A s. \<Union>j \<in> {m..m + k}. rests (pow A j) t)"
    using ih by simp
  also have "\<dots> = (\<Union>j \<in> {m..m + k}. rests (pow A (Suc j)) s)"
    unfolding rests_pow_Suc by blast
  also have "\<dots> = (\<Union>j \<in> {Suc m..Suc m + k}. rests (pow A j) s)"
    by (rule UN_from_Suc)
  finally show ?case .
qed

lemma pow_length:
  assumes "[] \<notin> A" and "u \<in> pow A j"
  shows "j \<le> length u"
  using assms(2)
proof (induction j arbitrary: u)
  case 0
  then show ?case by simp
next
  case (Suc j)
  then obtain a v where "u = a @ v" "a \<in> A" "v \<in> pow A j"
    by (auto simp: conc_def)
  moreover have "a \<noteq> []" using assms(1) \<open>a \<in> A\<close> by auto
  ultimately show ?case using Suc.IH [of v] by (cases a) auto
qed

lemma rests_pow_bound:
  assumes "[] \<notin> A"
  shows "(\<Union>j \<in> {m..}. rests (pow A j) s) = (\<Union>j \<in> {m..m + length s}. rests (pow A j) s)"
proof
  show "(\<Union>j \<in> {m..}. rests (pow A j) s) \<subseteq> (\<Union>j \<in> {m..m + length s}. rests (pow A j) s)"
  proof
    fix t assume "t \<in> (\<Union>j \<in> {m..}. rests (pow A j) s)"
    then obtain j u where j: "m \<le> j" "u \<in> pow A j" "s = u @ t"
      by (auto simp: rests_def)
    then have "j \<le> length u" using pow_length [OF assms] by blast
    then have "j \<le> m + length s" using j(3) by simp
    then show "t \<in> (\<Union>j \<in> {m..m + length s}. rests (pow A j) s)"
      using j by (auto simp: rests_def)
  qed
  show "(\<Union>j \<in> {m..m + length s}. rests (pow A j) s) \<subseteq> (\<Union>j \<in> {m..}. rests (pow A j) s)"
    by auto
qed

lemma empty_word_pow: "[] \<in> pow A j \<longleftrightarrow> j = 0 \<or> [] \<in> A"
  by (induction j) (auto simp: conc_def)

lemma nullable_lang: "plain r \<Longrightarrow> nullable r \<longleftrightarrow> [] \<in> lang ic r"
proof (induction r)
  case (Literal l)
  then show ?case by (cases l) simp_all
next
  case (Class items)
  then show ?case by simp
next
  case (Seq a b)
  then show ?case by (simp add: conc_def)
next
  case (Or a b)
  then show ?case by simp
next
  case (Repeat m n r)
  show ?case
  proof (cases n)
    case None
    then have "[] \<notin> lang ic r" using Repeat by simp
    then have "[] \<in> (\<Union>j \<in> {m..}. pow (lang ic r) j) \<longleftrightarrow> m = 0"
      by (auto simp: empty_word_pow)
    then show ?thesis using None Repeat by simp
  next
    case (Some k)
    then have mk: "m \<le> k" and ih: "nullable r \<longleftrightarrow> [] \<in> lang ic r"
      using Repeat by simp_all
    have "[] \<in> (\<Union>j \<in> {m..k}. pow (lang ic r) j) \<longleftrightarrow> m = 0 \<or> [] \<in> lang ic r"
      using mk by (auto simp: empty_word_pow)
    then show ?thesis using Some ih by simp
  qed
next
  case Caret
  then show ?case by simp
next
  case Dollar
  then show ?case by simp
qed

text \<open>
  The matcher is faithful to the language of a plain pattern: the rests it lists are
  exactly the rests after a prefix in the language.
\<close>

lemma run_lang:
  assumes "plain r"
  shows "set (run ic r s) = rests (lang ic r) s"
  using assms
proof (induction r arbitrary: s)
  case (Literal l)
  then show ?case by (simp only: run.simps lang.simps literal_rest_lang)
next
  case (Class items)
  then show ?case by (cases s) (auto simp: rests_def)
next
  case (Seq a b)
  then show ?case by (simp add: rests_conc)
next
  case (Or a b)
  then show ?case by (simp add: rests_Un)
next
  case (Repeat m n r)
  show ?case
  proof (cases n)
    case None
    then have "[] \<notin> lang ic r" using Repeat.prems nullable_lang [of r ic] by simp
    then show ?thesis
      using None Repeat by (simp add: rep_rests rests_UN rests_pow_bound)
  next
    case (Some k)
    then show ?thesis
      using Repeat by (simp add: rep_rests rests_UN)
  qed
qed simp_all

lemma upper_codes: "list_all (\<lambda>n::nat. char_of n \<in> set uppercase) [65..<91]"
  by code_simp

lemma in_range_upper: "in_range CHR ''A'' CHR ''Z'' c \<longleftrightarrow> c \<in> set uppercase"
proof
  assume "in_range CHR ''A'' CHR ''Z'' c"
  then have "(65::nat) \<le> of_char c" "of_char c \<le> (90::nat)"
    by (simp_all add: in_range_def)
  then have "(of_char c :: nat) \<in> {65..<91}"
    by simp
  then have "(of_char c :: nat) \<in> set [65..<91]"
    by (simp only: set_upt)
  then have "char_of (of_char c :: nat) \<in> set uppercase"
    using upper_codes unfolding list_all_iff by blast
  then show "c \<in> set uppercase"
    by simp
next
  assume "c \<in> set uppercase"
  then show "in_range CHR ''A'' CHR ''Z'' c"
    by (auto simp: uppercase_def in_range_def)
qed

lemma lower_cases: "lower c = c \<and> c \<notin> set uppercase \<or> lower c \<in> set lowercase \<and> c \<in> set uppercase"
proof (cases "c \<in> set uppercase")
  case True
  then show ?thesis by (auto simp: uppercase_def lowercase_def lower_def)
next
  case False
  then have "map_of (zip ''ABCDEFGHIJKLMNOPQRSTUVWXYZ'' ''abcdefghijklmnopqrstuvwxyz'') c = None"
    unfolding uppercase_def by (simp only: map_of_eq_None_iff) simp
  then show ?thesis using False by (simp add: lower_def)
qed

lemma upper_cases: "upper c = c \<and> c \<notin> set lowercase \<or> upper c \<in> set uppercase \<and> c \<in> set lowercase"
proof (cases "c \<in> set lowercase")
  case True
  then show ?thesis by (auto simp: uppercase_def lowercase_def upper_def)
next
  case False
  then have "map_of (zip ''abcdefghijklmnopqrstuvwxyz'' ''ABCDEFGHIJKLMNOPQRSTUVWXYZ'') c = None"
    unfolding lowercase_def by (simp only: map_of_eq_None_iff) simp
  then show ?thesis using False by (simp add: upper_def)
qed

lemma cases_disjoint: "c \<in> set uppercase \<Longrightarrow> c \<notin> set lowercase"
  by (auto simp: uppercase_def lowercase_def)

lemma range_AZ_ignorecase:
  "item_matches True (Range CHR ''A'' CHR ''Z'') c \<longleftrightarrow> is_letter c"
  using lower_cases [of c] upper_cases [of c] cases_disjoint [of c] cases_disjoint [of "lower c"]
  by (auto simp: in_range_upper is_letter_def)

lemma lower_eq_other:
  assumes "x \<notin> set lowercase" and "x \<notin> set uppercase"
  shows "lower c = x \<longleftrightarrow> c = x"
  using lower_cases [of c] lower_cases [of x] assms by auto

lemma not_letters:
  "CHR ''-'' \<notin> set lowercase" "CHR ''-'' \<notin> set uppercase"
  "CHR ''/'' \<notin> set lowercase" "CHR ''/'' \<notin> set uppercase"
  "CHR ''?'' \<notin> set lowercase" "CHR ''?'' \<notin> set uppercase"
  "CHR ''.'' \<notin> set lowercase" "CHR ''.'' \<notin> set uppercase"
  "CHR '':'' \<notin> set lowercase" "CHR '':'' \<notin> set uppercase"
  by (simp_all add: lowercase_def uppercase_def)

lemma lower_symbols:
  "lower c = CHR ''-'' \<longleftrightarrow> c = CHR ''-''"
  "lower c = CHR ''/'' \<longleftrightarrow> c = CHR ''/''"
  "lower c = CHR ''?'' \<longleftrightarrow> c = CHR ''?''"
  "lower c = CHR ''.'' \<longleftrightarrow> c = CHR ''.''"
  "lower c = CHR '':'' \<longleftrightarrow> c = CHR '':''"
  by (simp_all add: lower_eq_other not_letters)

lemma lower_symbols_self:
  "lower CHR ''-'' = CHR ''-''" "lower CHR ''/'' = CHR ''/''" "lower CHR ''?'' = CHR ''?''"
  "lower CHR ''.'' = CHR ''.''" "lower CHR '':'' = CHR '':''"
  by (simp_all add: lower_def)

lemma alnum_class: "list_ex (\<lambda>i. item_matches True i c) alnum \<longleftrightarrow> is_alnum c"
  using range_AZ_ignorecase [of c] by (simp add: alnum_def is_alnum_def)

lemma alnum_hyphen_class:
  "list_ex (\<lambda>i. item_matches True i c) alnum_hyphen \<longleftrightarrow> is_alnum_hyphen c"
  using range_AZ_ignorecase [of c]
  by (simp add: alnum_hyphen_def is_alnum_hyphen_def is_alnum_def lower_symbols lower_symbols_self)

lemma letter_class:
  "list_ex (\<lambda>i. item_matches True i c) [Range CHR ''A'' CHR ''Z''] \<longleftrightarrow> is_letter c"
  using range_AZ_ignorecase [of c] by simp

lemma digit_class: "list_ex (\<lambda>i. item_matches True i c) [Digit] \<longleftrightarrow> is_digit c"
  by simp

lemma nonspace_class: "list_ex (\<lambda>i. item_matches True i c) [NonSpace] \<longleftrightarrow> \<not> is_space c"
  by simp

lemma slash_class:
  "list_ex (\<lambda>i. item_matches True i c) [Ch CHR ''/'', Ch CHR ''?''] \<longleftrightarrow> c = CHR ''/'' \<or> c = CHR ''?''"
  by (simp add: lower_symbols lower_symbols_self)

lemma conc_iff: "w \<in> conc A B \<longleftrightarrow> (\<exists>u v. w = u @ v \<and> u \<in> A \<and> v \<in> B)"
  by (auto simp: conc_def)

lemma conc_empty_word [simp]: "conc A {[]} = A" "conc {[]} A = A"
  by (auto simp: conc_def)

lemma lang_seq_Nil: "lang ic (seq []) = {[]}"
  by (auto simp: seq_def)

lemma lang_seq_Cons: "lang ic (seq (r # rs)) = conc (lang ic r) (lang ic (seq rs))"
  by (simp add: seq_def)

lemma lang_opt: "lang ic (opt r) = {[]} \<union> lang ic r"
proof -
  have "{0..Suc 0} = {0, Suc 0}" by auto
  then show ?thesis by (simp add: opt_def Un_commute)
qed

lemma literal_ignorecase:
  "list_all2 (\<lambda>a. item_matches True (Ch a)) l u \<longleftrightarrow> map lower u = map lower l"
proof (induction l arbitrary: u)
  case Nil
  then show ?case by simp
next
  case (Cons a l)
  then show ?case by (cases u) auto
qed

lemma lang_Literal: "lang True (Literal l) = {u. map lower u = map lower l}"
  by (auto simp: literal_ignorecase)

lemma pow_class:
  "pow {[c] | c. P c} j = {u. length u = j \<and> list_all P u}"
proof (induction j)
  case 0
  then show ?case by auto
next
  case (Suc j)
  show ?case
  proof (intro set_eqI iffI)
    fix u assume "u \<in> pow {[c] | c. P c} (Suc j)"
    then obtain c v where "u = [c] @ v" "P c" "v \<in> pow {[c] | c. P c} j"
      by (auto simp: conc_def)
    then show "u \<in> {u. length u = Suc j \<and> list_all P u}"
      using Suc by simp
  next
    fix u assume "u \<in> {u. length u = Suc j \<and> list_all P u}"
    then obtain c v where "u = c # v" "P c" "length v = j" "list_all P v"
      by (cases u) auto
    then have "[c] \<in> {[c] | c. P c}" "v \<in> pow {[c] | c. P c} j" "u = [c] @ v"
      using Suc by auto
    then show "u \<in> pow {[c] | c. P c} (Suc j)"
      unfolding pow.simps conc_iff by blast
  qed
qed

lemma lang_Class:
  assumes "\<And>c. list_ex (\<lambda>i. item_matches ic i c) items \<longleftrightarrow> P c"
  shows "lang ic (Class items) = {[c] | c. P c}"
  using assms by simp

lemma lang_Repeat_Class:
  assumes "\<And>c. list_ex (\<lambda>i. item_matches ic i c) items \<longleftrightarrow> P c"
  shows "lang ic (Repeat m (Some n) (Class items)) = {u. m \<le> length u \<and> length u \<le> n \<and> list_all P u}"
    and "lang ic (Repeat m None (Class items)) = {u. m \<le> length u \<and> list_all P u}"
  unfolding lang.simps(5,6) lang_Class [of ic items P, OF assms] pow_class by auto

lemma pow_concat:
  "u \<in> pow A j \<longleftrightarrow> (\<exists>us. length us = j \<and> (\<forall>x \<in> set us. x \<in> A) \<and> u = concat us)"
proof (induction j arbitrary: u)
  case 0
  then show ?case by auto
next
  case (Suc j)
  show ?case
  proof
    assume "u \<in> pow A (Suc j)"
    then obtain a v where "u = a @ v" "a \<in> A" "v \<in> pow A j"
      by (auto simp: conc_def)
    then obtain vs where "length vs = j" "\<forall>x \<in> set vs. x \<in> A" "v = concat vs"
      using Suc by blast
    then have "length (a # vs) = Suc j \<and> (\<forall>x \<in> set (a # vs). x \<in> A) \<and> u = concat (a # vs)"
      using \<open>u = a @ v\<close> \<open>a \<in> A\<close> by simp
    then show "\<exists>us. length us = Suc j \<and> (\<forall>x \<in> set us. x \<in> A) \<and> u = concat us"
      by blast
  next
    assume "\<exists>us. length us = Suc j \<and> (\<forall>x \<in> set us. x \<in> A) \<and> u = concat us"
    then obtain us where us: "length us = Suc j" "\<forall>x \<in> set us. x \<in> A" "u = concat us"
      by blast
    then obtain a vs where "us = a # vs" by (cases us) auto
    then have "a \<in> A" "concat vs \<in> pow A j" "u = a @ concat vs"
      using us Suc [of "concat vs"] by auto
    then show "u \<in> pow A (Suc j)"
      unfolding pow.simps conc_iff by blast
  qed
qed

lemma lower_word:
  "map lower ''http'' = ''http''" "map lower ''ftp'' = ''ftp''" "map lower ''s'' = ''s''"
  "map lower ''://'' = ''://''" "map lower ''.'' = ''.''" "map lower '':'' = '':''"
  "map lower ''/'' = ''/''" "map lower ''localhost'' = ''localhost''"
  by (simp_all add: lower_def)

lemma concE:
  assumes "w \<in> conc A B"
  obtains u v where "w = u @ v" "u \<in> A" "v \<in> B"
  using assms by (auto simp: conc_def)

lemma concI: "u \<in> A \<Longrightarrow> v \<in> B \<Longrightarrow> u @ v \<in> conc A B"
  by (auto simp: conc_def)

lemma symbol_words:
  "{u. map lower u = ''.''} = {''.''}"
  "{u. map lower u = '':''} = {'':''}"
  "{u. map lower u = ''/''} = {''/''}"
  "{u. map lower u = ''://''} = {''://''}"
  by (auto simp: map_eq_Cons_conv lower_symbols lower_symbols_self)

lemma map_eq_appendD:
  assumes "map f w = a @ b"
  obtains u v where "w = u @ v" "map f u = a" "map f v = b"
  using assms by (metis map_eq_append_conv)

lemma lang_scheme_conc:
  "lang True scheme_rx =
     conc ({u. map lower u = ''http''} \<union> {u. map lower u = ''ftp''})
          (conc ({[]} \<union> {u. map lower u = ''s''}) {''://''})"
  by (simp only: scheme_rx_def lang_seq_Cons lang_seq_Nil lang_opt lang.simps(4)
        lang_Literal lower_word conc_empty_word symbol_words)

lemma scheme_words:
  "w \<in> conc ({u. map f u = a} \<union> {u. map f u = b}) (conc ({[]} \<union> {u. map f u = s}) {t})
   \<longleftrightarrow> (\<exists>sc. w = sc @ t \<and> map f sc \<in> {a, a @ s, b, b @ s})"
proof
  assume "w \<in> conc ({u. map f u = a} \<union> {u. map f u = b}) (conc ({[]} \<union> {u. map f u = s}) {t})"
  then obtain u1 r where r: "w = u1 @ r"
    and u1: "u1 \<in> {u. map f u = a} \<union> {u. map f u = b}"
    and "r \<in> conc ({[]} \<union> {u. map f u = s}) {t}"
    by (rule concE)
  from this(3) obtain u2 v where "r = u2 @ v"
    and u2: "u2 \<in> {[]} \<union> {u. map f u = s}" and "v \<in> {t}"
    by (rule concE)
  then have "w = (u1 @ u2) @ t" using r by simp
  moreover have "map f (u1 @ u2) \<in> {a, a @ s, b, b @ s}"
    using u1 u2 by auto
  ultimately show "\<exists>sc. w = sc @ t \<and> map f sc \<in> {a, a @ s, b, b @ s}"
    by blast
next
  assume "\<exists>sc. w = sc @ t \<and> map f sc \<in> {a, a @ s, b, b @ s}"
  then obtain sc where w: "w = sc @ t" and sc: "map f sc \<in> {a, a @ s, b, b @ s}" by blast
  have "\<exists>u1 u2. sc = u1 @ u2 \<and> u1 \<in> {u. map f u = a} \<union> {u. map f u = b}
          \<and> u2 \<in> {[]} \<union> {u. map f u = s}"
  proof -
    consider "map f sc = a" | "map f sc = a @ s" | "map f sc = b" | "map f sc = b @ s"
      using sc by auto
    then show ?thesis
    proof cases
      case 1
      then have "sc = sc @ [] \<and> sc \<in> {u. map f u = a} \<union> {u. map f u = b}" by simp
      then show ?thesis by blast
    next
      case 2
      then obtain u1 u2 where "sc = u1 @ u2" "map f u1 = a" "map f u2 = s"
        by (rule map_eq_appendD)
      then show ?thesis by blast
    next
      case 3
      then have "sc = sc @ [] \<and> sc \<in> {u. map f u = a} \<union> {u. map f u = b}" by simp
      then show ?thesis by blast
    next
      case 4
      then obtain u1 u2 where "sc = u1 @ u2" "map f u1 = b" "map f u2 = s"
        by (rule map_eq_appendD)
      then show ?thesis by blast
    qed
  qed
  then obtain u1 u2 where sc2: "sc = u1 @ u2"
    and u1: "u1 \<in> {u. map f u = a} \<union> {u. map f u = b}"
    and u2: "u2 \<in> {[]} \<union> {u. map f u = s}" by blast
  have "u1 @ (u2 @ t) \<in> conc ({u. map f u = a} \<union> {u. map f u = b})
                              (conc ({[]} \<union> {u. map f u = s}) {t})"
    by (intro concI u1 u2) simp
  then show "w \<in> conc ({u. map f u = a} \<union> {u. map f u = b}) (conc ({[]} \<union> {u. map f u = s}) {t})"
    using w sc2 by simp
qed

lemma is_scheme_words:
  "is_scheme sc \<longleftrightarrow> map lower sc \<in> {''http'', ''http'' @ ''s'', ''ftp'', ''ftp'' @ ''s''}"
  by (simp add: is_scheme_def)

lemma lang_scheme: "w \<in> lang True scheme_rx \<longleftrightarrow> (\<exists>sc. w = sc @ ''://'' \<and> is_scheme sc)"
  unfolding lang_scheme_conc scheme_words is_scheme_words ..

lemma label_words:
  assumes PQ: "\<And>c. P c \<Longrightarrow> Q c"
  shows "w \<in> conc {[c] | c. P c}
               (conc ({[]} \<union> conc {u. 0 \<le> length u \<and> length u \<le> n \<and> list_all Q u} {[c] | c. P c}) {t})
         \<longleftrightarrow> (\<exists>l. w = l @ t \<and> l \<noteq> [] \<and> length l \<le> n + 2 \<and> list_all Q l
                   \<and> P (hd l) \<and> P (last l))"
proof
  assume "w \<in> conc {[c] | c. P c}
               (conc ({[]} \<union> conc {u. 0 \<le> length u \<and> length u \<le> n \<and> list_all Q u} {[c] | c. P c}) {t})"
  then obtain u1 r where r: "w = u1 @ r" and u1: "u1 \<in> {[c] | c. P c}"
    and "r \<in> conc ({[]} \<union> conc {u. 0 \<le> length u \<and> length u \<le> n \<and> list_all Q u} {[c] | c. P c}) {t}"
    by (rule concE)
  from this(3) obtain x v where rx: "r = x @ v"
    and x: "x \<in> {[]} \<union> conc {u. 0 \<le> length u \<and> length u \<le> n \<and> list_all Q u} {[c] | c. P c}"
    and v: "v \<in> {t}"
    by (rule concE)
  obtain a where a: "u1 = [a]" "P a" using u1 by auto
  have w: "w = (a # x) @ t" using r rx a v by simp
  show "\<exists>l. w = l @ t \<and> l \<noteq> [] \<and> length l \<le> n + 2 \<and> list_all Q l \<and> P (hd l) \<and> P (last l)"
  proof (cases "x = []")
    case True
    then have "a # x \<noteq> [] \<and> length (a # x) \<le> n + 2 \<and> list_all Q (a # x)
               \<and> P (hd (a # x)) \<and> P (last (a # x))"
      using a PQ by simp
    then show ?thesis using w by blast
  next
    case False
    then have "x \<in> conc {u. 0 \<le> length u \<and> length u \<le> n \<and> list_all Q u} {[c] | c. P c}"
      using x by simp
    then obtain mid e where "x = mid @ e" "mid \<in> {u. 0 \<le> length u \<and> length u \<le> n \<and> list_all Q u}"
      "e \<in> {[c] | c. P c}"
      by (rule concE)
    then obtain z where "x = mid @ [z]" "length mid \<le> n" "list_all Q mid" "P z"
      by auto
    then have "a # x \<noteq> [] \<and> length (a # x) \<le> n + 2 \<and> list_all Q (a # x)
               \<and> P (hd (a # x)) \<and> P (last (a # x))"
      using a PQ by simp
    then show ?thesis using w by blast
  qed
next
  assume "\<exists>l. w = l @ t \<and> l \<noteq> [] \<and> length l \<le> n + 2 \<and> list_all Q l \<and> P (hd l) \<and> P (last l)"
  then obtain l where w: "w = l @ t" and l: "l \<noteq> []" "length l \<le> n + 2" "list_all Q l"
    "P (hd l)" "P (last l)" by blast
  then obtain a x where ax: "l = a # x" by (cases l) auto
  have a: "[a] \<in> {[c] | c. P c}" using l ax by simp
  have x: "x \<in> {[]} \<union> conc {u. 0 \<le> length u \<and> length u \<le> n \<and> list_all Q u} {[c] | c. P c}"
  proof (cases "x = []")
    case True
    then show ?thesis by simp
  next
    case False
    then have split: "x = butlast x @ [last x]" by simp
    have "butlast x \<in> {u. 0 \<le> length u \<and> length u \<le> n \<and> list_all Q u}"
      using l ax False by (auto simp: list_all_iff dest: in_set_butlastD)
    moreover have "[last x] \<in> {[c] | c. P c}"
      using l ax False by simp
    ultimately have "butlast x @ [last x]
        \<in> conc {u. 0 \<le> length u \<and> length u \<le> n \<and> list_all Q u} {[c] | c. P c}"
      by (rule concI)
    then show ?thesis using split by simp
  qed
  have "[a] @ (x @ t) \<in> conc {[c] | c. P c}
               (conc ({[]} \<union> conc {u. 0 \<le> length u \<and> length u \<le> n \<and> list_all Q u} {[c] | c. P c}) {t})"
    by (intro concI a x) simp
  then show "w \<in> conc {[c] | c. P c}
               (conc ({[]} \<union> conc {u. 0 \<le> length u \<and> length u \<le> n \<and> list_all Q u} {[c] | c. P c}) {t})"
    using w ax by simp
qed

lemma lang_label_conc:
  "lang True label_rx =
     conc {[c] | c. is_alnum c}
          (conc ({[]} \<union> conc {u. 0 \<le> length u \<and> length u \<le> 61 \<and> list_all is_alnum_hyphen u}
                               {[c] | c. is_alnum c}) {''.''})"
  unfolding label_rx_def lang_seq_Cons lang_seq_Nil lang_opt conc_empty_word
    lang_Repeat_Class(1) [of True alnum_hyphen is_alnum_hyphen, OF alnum_hyphen_class]
    lang_Class [of True alnum is_alnum, OF alnum_class]
    lang_Literal lower_word symbol_words
  by (rule refl)

lemma lang_label: "lang True label_rx = {l @ ''.'' | l. is_label l}"
proof -
  have "w \<in> lang True label_rx \<longleftrightarrow> (\<exists>l. w = l @ ''.'' \<and> is_label l)" for w
    unfolding lang_label_conc is_label_def
    using label_words [of is_alnum is_alnum_hyphen w 61 "''.''"]
    by (simp add: is_alnum_hyphen_def)
  then show ?thesis by blast
qed

lemma labels_words:
  "w \<in> (\<Union>j \<in> {1..}. pow {l @ t | l. lab l} j)
   \<longleftrightarrow> (\<exists>labels. w = concat (map (\<lambda>l. l @ t) labels) \<and> labels \<noteq> [] \<and> list_all lab labels)"
proof
  assume "w \<in> (\<Union>j \<in> {1..}. pow {l @ t | l. lab l} j)"
  then obtain j where j: "1 \<le> j" and "w \<in> pow {l @ t | l. lab l} j"
    by auto
  then obtain us where us: "length us = j" "\<forall>x \<in> set us. x \<in> {l @ t | l. lab l}"
    "w = concat us"
    unfolding pow_concat by blast
  have "\<exists>labels. us = map (\<lambda>l. l @ t) labels \<and> list_all lab labels"
    using us(2)
  proof (induction us)
    case Nil
    then show ?case by simp
  next
    case (Cons x xs)
    then obtain labels where "xs = map (\<lambda>l. l @ t) labels" "list_all lab labels" by auto
    moreover obtain l where "x = l @ t" "lab l" using Cons.prems by auto
    ultimately have "x # xs = map (\<lambda>l. l @ t) (l # labels) \<and> list_all lab (l # labels)"
      by simp
    then show ?case by (rule exI)
  qed
  then obtain labels where "us = map (\<lambda>l. l @ t) labels" "list_all lab labels" by blast
  moreover have "labels \<noteq> []" using j us(1) calculation(1) by auto
  ultimately show "\<exists>labels. w = concat (map (\<lambda>l. l @ t) labels) \<and> labels \<noteq> [] \<and> list_all lab labels"
    using us(3) by blast
next
  assume "\<exists>labels. w = concat (map (\<lambda>l. l @ t) labels) \<and> labels \<noteq> [] \<and> list_all lab labels"
  then obtain labels where w: "w = concat (map (\<lambda>l. l @ t) labels)" and ne: "labels \<noteq> []"
    and lab: "list_all lab labels" by blast
  have "length (map (\<lambda>l. l @ t) labels) = length labels
        \<and> (\<forall>x \<in> set (map (\<lambda>l. l @ t) labels). x \<in> {l @ t | l. lab l})
        \<and> w = concat (map (\<lambda>l. l @ t) labels)"
    using w lab by (auto simp: list_all_iff)
  then have "w \<in> pow {l @ t | l. lab l} (length labels)"
    unfolding pow_concat by blast
  moreover have "1 \<le> length labels" using ne by (cases labels) auto
  ultimately show "w \<in> (\<Union>j \<in> {1..}. pow {l @ t | l. lab l} j)" by blast
qed

lemma domain_words:
  assumes sub: "T1 \<subseteq> T2"
  shows "w \<in> conc (\<Union>j \<in> {1..}. pow {l @ t | l. lab l} j) (conc T1 D \<union> conc T2 D)
         \<longleftrightarrow> (\<exists>labels tld dot. w = concat (map (\<lambda>l. l @ t) labels) @ tld @ dot
                  \<and> labels \<noteq> [] \<and> list_all lab labels \<and> tld \<in> T2 \<and> dot \<in> D)"
proof
  assume "w \<in> conc (\<Union>j \<in> {1..}. pow {l @ t | l. lab l} j) (conc T1 D \<union> conc T2 D)"
  then obtain u r where w: "w = u @ r" and u: "u \<in> (\<Union>j \<in> {1..}. pow {l @ t | l. lab l} j)"
    and r: "r \<in> conc T1 D \<union> conc T2 D"
    by (rule concE)
  have "conc T1 D \<subseteq> conc T2 D" using sub by (auto simp: conc_def)
  then have "r \<in> conc T2 D" using r by auto
  then obtain tld dot where "r = tld @ dot" "tld \<in> T2" "dot \<in> D" by (rule concE)
  moreover obtain labels where "u = concat (map (\<lambda>l. l @ t) labels)" "labels \<noteq> []"
    "list_all lab labels"
    using u unfolding labels_words by blast
  ultimately show "\<exists>labels tld dot. w = concat (map (\<lambda>l. l @ t) labels) @ tld @ dot
                  \<and> labels \<noteq> [] \<and> list_all lab labels \<and> tld \<in> T2 \<and> dot \<in> D"
    using w by blast
next
  assume "\<exists>labels tld dot. w = concat (map (\<lambda>l. l @ t) labels) @ tld @ dot
                  \<and> labels \<noteq> [] \<and> list_all lab labels \<and> tld \<in> T2 \<and> dot \<in> D"
  then obtain labels tld dot where w: "w = concat (map (\<lambda>l. l @ t) labels) @ tld @ dot"
    and l: "labels \<noteq> []" "list_all lab labels" and t: "tld \<in> T2" "dot \<in> D" by blast
  have "concat (map (\<lambda>l. l @ t) labels) \<in> (\<Union>j \<in> {1..}. pow {l @ t | l. lab l} j)"
    unfolding labels_words using l by blast
  moreover have "tld @ dot \<in> conc T1 D \<union> conc T2 D"
    using t by (simp add: concI)
  ultimately show "w \<in> conc (\<Union>j \<in> {1..}. pow {l @ t | l. lab l} j) (conc T1 D \<union> conc T2 D)"
    unfolding w by (rule concI)
qed

lemma lang_domain_conc:
  "lang True domain_rx =
     conc (\<Union>j \<in> {1..}. pow {l @ ''.'' | l. is_label l} j)
          (conc {u. 2 \<le> length u \<and> length u \<le> 6 \<and> list_all is_letter u} ({[]} \<union> {''.''})
           \<union> conc {u. 2 \<le> length u \<and> list_all is_alnum_hyphen u} ({[]} \<union> {''.''}))"
  unfolding domain_rx_def lang_seq_Cons lang_seq_Nil lang_opt conc_empty_word lang.simps(4)
    lang_Repeat_Class(1) [of True "[Range CHR ''A'' CHR ''Z'']" is_letter, OF letter_class]
    lang_Repeat_Class(2) [of True alnum_hyphen is_alnum_hyphen, OF alnum_hyphen_class]
    lang_Literal lower_word symbol_words
  unfolding lang.simps(5) lang_label
  by (rule refl)

lemma lang_domain: "w \<in> lang True domain_rx \<longleftrightarrow> is_domain w"
proof -
  have sub: "{u. 2 \<le> length u \<and> length u \<le> 6 \<and> list_all is_letter u}
             \<subseteq> {u. 2 \<le> length u \<and> list_all is_alnum_hyphen u}"
    by (auto simp: list_all_iff is_alnum_hyphen_def is_alnum_def)
  show ?thesis
    unfolding lang_domain_conc domain_words [OF sub] is_domain_def by auto
qed

lemma prefix_words: "w \<in> conc {t} R \<longleftrightarrow> (\<exists>r. w = t @ r \<and> r \<in> R)"
  by (auto simp: conc_def)

lemma cons_words: "w \<in> conc {[c] | c. P c} R \<longleftrightarrow> (\<exists>c rest. w = c # rest \<and> P c \<and> rest \<in> R)"
proof
  assume "w \<in> conc {[c] | c. P c} R"
  then obtain u v where "w = u @ v" "u \<in> {[c] | c. P c}" "v \<in> R" by (rule concE)
  then show "\<exists>c rest. w = c # rest \<and> P c \<and> rest \<in> R" by auto
next
  assume "\<exists>c rest. w = c # rest \<and> P c \<and> rest \<in> R"
  then obtain c rest where w: "w = [c] @ rest" and "[c] \<in> {[c] | c. P c}" "rest \<in> R" by auto
  then show "w \<in> conc {[c] | c. P c} R" unfolding w by (intro concI)
qed

lemma quad_words:
  "w \<in> conc G (conc {t} (conc G (conc {t} (conc G (conc {t} G)))))
   \<longleftrightarrow> (\<exists>a b c d. w = a @ t @ b @ t @ c @ t @ d \<and> a \<in> G \<and> b \<in> G \<and> c \<in> G \<and> d \<in> G)"
proof
  assume "w \<in> conc G (conc {t} (conc G (conc {t} (conc G (conc {t} G)))))"
  then obtain a r1 where 1: "w = a @ r1" "a \<in> G"
    "r1 \<in> conc {t} (conc G (conc {t} (conc G (conc {t} G))))" by (rule concE)
  from 1(3) obtain r2 where 2: "r1 = t @ r2" "r2 \<in> conc G (conc {t} (conc G (conc {t} G)))"
    unfolding prefix_words by blast
  from 2(2) obtain b r3 where 3: "r2 = b @ r3" "b \<in> G" "r3 \<in> conc {t} (conc G (conc {t} G))"
    by (rule concE)
  from 3(3) obtain r4 where 4: "r3 = t @ r4" "r4 \<in> conc G (conc {t} G)"
    unfolding prefix_words by blast
  from 4(2) obtain c r5 where 5: "r4 = c @ r5" "c \<in> G" "r5 \<in> conc {t} G" by (rule concE)
  from 5(3) obtain d where 6: "r5 = t @ d" "d \<in> G" unfolding prefix_words by blast
  have "w = a @ t @ b @ t @ c @ t @ d" using 1(1) 2(1) 3(1) 4(1) 5(1) 6(1) by simp
  then show "\<exists>a b c d. w = a @ t @ b @ t @ c @ t @ d \<and> a \<in> G \<and> b \<in> G \<and> c \<in> G \<and> d \<in> G"
    using 1(2) 3(2) 5(2) 6(2) by blast
next
  assume "\<exists>a b c d. w = a @ t @ b @ t @ c @ t @ d \<and> a \<in> G \<and> b \<in> G \<and> c \<in> G \<and> d \<in> G"
  then obtain a b c d where w: "w = a @ t @ b @ t @ c @ t @ d"
    and g: "a \<in> G" "b \<in> G" "c \<in> G" "d \<in> G" by blast
  have "t \<in> {t}" by simp
  then show "w \<in> conc G (conc {t} (conc G (conc {t} (conc G (conc {t} G)))))"
    unfolding w by (intro concI g)
qed

lemma lang_ip_conc:
  "lang True ip_rx =
     conc {u. 1 \<le> length u \<and> length u \<le> 3 \<and> list_all is_digit u} (conc {''.''}
    (conc {u. 1 \<le> length u \<and> length u \<le> 3 \<and> list_all is_digit u} (conc {''.''}
    (conc {u. 1 \<le> length u \<and> length u \<le> 3 \<and> list_all is_digit u} (conc {''.''}
          {u. 1 \<le> length u \<and> length u \<le> 3 \<and> list_all is_digit u})))))"
  unfolding ip_rx_def lang_seq_Cons lang_seq_Nil conc_empty_word
    lang_Repeat_Class(1) [of True "[Digit]" is_digit, OF digit_class]
    lang_Literal lower_word symbol_words
  by (rule refl)

lemma lang_ip: "w \<in> lang True ip_rx \<longleftrightarrow> is_dotted_quad w"
  unfolding lang_ip_conc quad_words is_dotted_quad_def is_digit_group_def by simp

lemma lang_host: "w \<in> lang True host_rx \<longleftrightarrow> is_host w"
  unfolding host_rx_def lang.simps(4) Un_iff lang_domain lang_ip lang_Literal lower_word
    is_host_def by simp

lemma lang_port_conc:
  "lang True port_rx = {[]} \<union> conc {'':''} {u. 1 \<le> length u \<and> list_all is_digit u}"
  unfolding port_rx_def lang_seq_Cons lang_seq_Nil lang_opt conc_empty_word
    lang_Repeat_Class(2) [of True "[Digit]" is_digit, OF digit_class]
    lang_Literal lower_word symbol_words
  by (rule refl)

lemma lang_port: "w \<in> lang True port_rx \<longleftrightarrow> is_port w"
proof -
  have "1 \<le> length ds \<longleftrightarrow> ds \<noteq> []" for ds :: string
    by (cases ds) auto
  then show ?thesis
    unfolding lang_port_conc is_port_def Un_iff prefix_words by auto
qed

lemma lang_path_conc:
  "lang True path_rx =
     ({[]} \<union> {''/''})
     \<union> conc {[c] | c. c = CHR ''/'' \<or> c = CHR ''?''}
            {u. 1 \<le> length u \<and> list_all (\<lambda>x. \<not> is_space x) u}"
  unfolding path_rx_def lang_seq_Cons lang_seq_Nil lang_opt conc_empty_word lang.simps(4)
    lang_Repeat_Class(2) [of True "[NonSpace]" "\<lambda>x. \<not> is_space x", OF nonspace_class]
    lang_Class [of True "[Ch CHR ''/'', Ch CHR ''?'']" "\<lambda>c. c = CHR ''/'' \<or> c = CHR ''?''",
                OF slash_class]
    lang_Literal lower_word symbol_words
  by (rule refl)

lemma lang_path: "w \<in> lang True path_rx \<longleftrightarrow> is_path w"
proof -
  have "1 \<le> length ds \<longleftrightarrow> ds \<noteq> []" for ds :: string
    by (cases ds) auto
  then show ?thesis
    unfolding lang_path_conc is_path_def Un_iff cons_words by auto
qed

lemma lang_url_body: "w \<in> lang True url_body \<longleftrightarrow> url_syntax w"
proof
  assume "w \<in> lang True url_body"
  then have "w \<in> conc (lang True scheme_rx) (conc (lang True host_rx)
                   (conc (lang True port_rx) (lang True path_rx)))"
    by (simp only: url_body_def lang_seq_Cons lang_seq_Nil conc_empty_word)
  then obtain x r1 where 1: "w = x @ r1" "x \<in> lang True scheme_rx"
    "r1 \<in> conc (lang True host_rx) (conc (lang True port_rx) (lang True path_rx))"
    by (rule concE)
  from 1(3) obtain h r2 where 2: "r1 = h @ r2" "h \<in> lang True host_rx"
    "r2 \<in> conc (lang True port_rx) (lang True path_rx)"
    by (rule concE)
  from 2(3) obtain p q where 3: "r2 = p @ q" "p \<in> lang True port_rx" "q \<in> lang True path_rx"
    by (rule concE)
  obtain sc where sc: "x = sc @ ''://''" "is_scheme sc"
    using 1(2) unfolding lang_scheme by blast
  have "w = sc @ ''://'' @ h @ p @ q" using 1(1) 2(1) 3(1) sc(1) by simp
  moreover have "is_host h" "is_port p" "is_path q"
    using 2(2) 3(2,3) by (simp_all add: lang_host lang_port lang_path)
  ultimately show "url_syntax w"
    unfolding url_syntax_def using sc(2) by blast
next
  assume "url_syntax w"
  then obtain sc h p q where w: "w = sc @ ''://'' @ h @ p @ q"
    and parts: "is_scheme sc" "is_host h" "is_port p" "is_path q"
    unfolding url_syntax_def by blast
  have "sc @ ''://'' \<in> lang True scheme_rx"
    unfolding lang_scheme using parts(1) by blast
  moreover have "h \<in> lang True host_rx" "p \<in> lang True port_rx" "q \<in> lang True path_rx"
    using parts by (simp_all add: lang_host lang_port lang_path)
  ultimately have "(sc @ ''://'') @ (h @ (p @ q))
      \<in> conc (lang True scheme_rx) (conc (lang True host_rx)
                   (conc (lang True port_rx) (lang True path_rx)))"
    by (intro concI)
  then show "w \<in> lang True url_body"
    unfolding w by (simp only: url_body_def lang_seq_Cons lang_seq_Nil conc_empty_word append_assoc)
qed

lemma plain_url_body: "plain url_body"
  by (simp add: url_body_def scheme_rx_def host_rx_def domain_rx_def label_rx_def ip_rx_def
        port_rx_def path_rx_def seq_def opt_def)

lemma url_validate_rests:
  "url_validate target \<longleftrightarrow>
     [] \<in> set (run True url_body target) \<or> [CHR 0x0A] \<in> set (run True url_body target)"
  by (auto simp: url_validate_def re_match_def url_regex_def seq_def
        concat_eq_Nil_conv split: if_splits)

text \<open>
  The strings \<open>url_validate\<close> accepts are the URLs of the syntax above and those
  URLs followed by one newline.
\<close>

lemma url_validate_iff:
  "url_validate target \<longleftrightarrow>
     url_syntax target \<or> (\<exists>u. target = u @ [CHR 0x0A] \<and> url_syntax u)"
  unfolding url_validate_rests run_lang [OF plain_url_body] rests_def
  by (auto simp: lang_url_body)

lemma url_validate_examples:
  "url_validate ''https://example.com''"
  "url_validate ''ftp://localhost:21/path''"
  "\<not> url_validate ''not a url''"
  "url_validate ''http://999.999.999.999''"
  by code_simp+

text \<open>
  C7. \<open>url_validate\<close> is a total function to the booleans and has no effect; it
  accepts the two URLs and rejects the phrase that the claim names, and accepts a
  dotted quad whose groups exceed 255. It does not, however, accept full matches only:
  for \<^verbatim>\<open>https://example.com\<close> followed by a newline no match of the pattern before
  \<^verbatim>\<open>$\<close> reaches the end of the string, but one leaves just the newline, and \<^verbatim>\<open>$\<close>
  holds before a final newline, so the function returns true for a string that is no
  full-string match.
\<close>

theorem url_validate_trailing_newline:
  "[] \<notin> set (run True url_body (''https://example.com'' @ [CHR 0x0A]))
   \<and> url_validate (''https://example.com'' @ [CHR 0x0A]) = True"
  by code_simp

section \<open>Properties of the HTTP functions\<close>

lemma sent_append [simp]: "sent (w @ v) = sent w @ sent v"
  by (induction w rule: sent.induct) auto

lemma console_append [simp]: "console (w @ v) = console w @ console v"
  by (induction w rule: console.induct) auto

lemma refusal_get:
  "refusal (get_request url v) =
     RequestException
       (if CHR '':'' \<notin> set (lstrip url) then MissingSchema
        else if startswith (map lower (lstrip url)) ''http:''
                \<or> startswith (map lower (lstrip url)) ''https:''
             then InvalidURL
        else InvalidSchema)"
  by (simp add: refusal_def not_json_def get_request_def)

lemma answer_get:
  "answer srv history (get_request url v) =
     (if has_adapter url then srv history (get_request url v)
      else (case srv history (get_request url v) of
              Failed e \<Rightarrow> Failed e
            | Status s \<Rightarrow> Failed (refusal (get_request url v))))"
  by (simp add: answer_def not_json_def get_request_def split: reply.splits)

lemma requests_request_world:
  "snd (requests_request srv r w) = w \<or> snd (requests_request srv r w) = w @ [Sent r]"
  by (simp add: requests_request_def split: reply.splits)

lemma requests_request_no_adapter:
  assumes "\<not> has_adapter (req_url r)"
  shows "requests_request srv r w =
           (Inl (case srv (sent w) r of
                   Failed e \<Rightarrow> e
                 | Status s \<Rightarrow> refusal r), w)"
  using assms by (simp add: requests_request_def answer_def split: reply.splits)

lemma no_adapter_after_sep:
  assumes "startswith url ''/''"
  shows "\<not> has_adapter url"
proof -
  from assms obtain t where url: "url = CHR ''/'' # t"
    by (cases url) auto
  have "\<not> is_space CHR ''/''"
    by (simp add: is_space_def)
  then have "lstrip url = url"
    by (simp add: lstrip_def url)
  moreover have "lower CHR ''/'' = CHR ''/''"
    by (simp add: lower_def)
  ultimately show ?thesis
    by (simp add: has_adapter_def url)
qed

lemma has_adapter_http: "has_adapter (''http://'' @ rest)"
  by (simp add: has_adapter_def lstrip_def is_space_def lower_def)

lemma refusal_after_sep:
  assumes "startswith url ''/''"
  shows "refusal (get_request url v) =
           RequestException (if CHR '':'' \<in> set url then InvalidSchema else MissingSchema)"
proof -
  from assms obtain t where url: "url = CHR ''/'' # t"
    by (cases url) auto
  have "\<not> is_space CHR ''/''"
    by (simp add: is_space_def)
  then have "lstrip url = url"
    by (simp add: lstrip_def url)
  moreover have "lower CHR ''/'' = CHR ''/''"
    by (simp add: lower_def)
  ultimately show ?thesis
    unfolding refusal_get by (simp add: url)
qed

text \<open>
  C3. When the GET of \<open>stac_collection_exists\<close> is answered with a status code, the
  function returns true if and only if that code is exactly 200, and false for every
  other code; the single request it sends is the GET, with certificate verification
  off. A status can only come back for a URL that \<^verbatim>\<open>requests\<close> has an adapter for.
\<close>

theorem stac_collection_exists_iff_200:
  assumes "has_adapter (os_path_join stac_host [''collections'', collection_id])"
    and "srv (sent w) (get_request (os_path_join stac_host [''collections'', collection_id]) False)
           = Status status_code"
  shows "stac_collection_exists srv stac_host collection_id w =
           (Inr (status_code = 200),
            w @ [Sent (get_request (os_path_join stac_host [''collections'', collection_id]) False)])"
  using assms by (simp add: stac_collection_exists_def requests_request_def answer_get)

theorem stac_collection_exists_iff_200_witness:
  "stac_collection_exists (scripted [Status 200]) ''http://h'' ''c1'' [] =
     (Inr True, [Sent (get_request ''http://h/collections/c1'' False)])
   \<and> stac_collection_exists (scripted [Status 404]) ''http://h'' ''c1'' [] =
     (Inr False, [Sent (get_request ''http://h/collections/c1'' False)])"
  using stac_collection_exists_iff_200 [of "''http://h''" "''c1''" "scripted [Status 200]" "[]" 200]
        stac_collection_exists_iff_200 [of "''http://h''" "''c1''" "scripted [Status 404]" "[]" 404]
        has_adapter_http [of "''h/collections/c1''"]
  by (simp add: scripted_def sep_def endswith_def)

text \<open>
  C9 (as amended). \<open>stac_host_reachable\<close> returns true when the GET is answered with a
  status outside 400 to 599, which covers every success status, and false when it is
  answered with a client or server error status (400 to 599). It returns false when
  the call fails with an exception of the class \<^verbatim>\<open>RequestException\<close> (connection
  refused, timeout, DNS failure, TLS error), and also for a URL without adapter, for
  which \<^verbatim>\<open>requests\<close> raises such an exception unless the environment names another.
  An exception of any other class that comes out of \<^verbatim>\<open>requests.get\<close> is not caught:
  it reaches the caller.
\<close>

theorem stac_host_reachable_catches_RequestException:
  "(\<forall>s. has_adapter url \<longrightarrow> srv (sent w) (get_request url True) = Status s \<longrightarrow>
        \<not> (400 \<le> s \<and> s < 600) \<longrightarrow>
        stac_host_reachable srv url w = (Inr True, w @ [Sent (get_request url True)]))
   \<and> (\<forall>s. has_adapter url \<longrightarrow> srv (sent w) (get_request url True) = Status s \<longrightarrow>
        400 \<le> s \<and> s < 600 \<longrightarrow>
        stac_host_reachable srv url w = (Inr False, w @ [Sent (get_request url True)]))
   \<and> (\<forall>e. srv (sent w) (get_request url True) = Failed (RequestException e) \<longrightarrow>
        stac_host_reachable srv url w = (Inr False, w))
   \<and> (\<forall>s. \<not> has_adapter url \<longrightarrow> srv (sent w) (get_request url True) = Status s \<longrightarrow>
        stac_host_reachable srv url w = (Inr False, w))
   \<and> (\<forall>e. srv (sent w) (get_request url True) = Failed e \<longrightarrow>
        \<not> isinstance_RequestException e \<longrightarrow>
        stac_host_reachable srv url w = (Inl e, w))"
proof (intro conjI allI impI)
  fix s
  assume "has_adapter url" and "srv (sent w) (get_request url True) = Status s"
    and "\<not> (400 \<le> s \<and> s < 600)"
  then show "stac_host_reachable srv url w = (Inr True, w @ [Sent (get_request url True)])"
    by (simp add: stac_host_reachable_def requests_request_def answer_get raise_for_status_def)
next
  fix s
  assume "has_adapter url" and "srv (sent w) (get_request url True) = Status s"
    and "400 \<le> s \<and> s < 600"
  then show "stac_host_reachable srv url w = (Inr False, w @ [Sent (get_request url True)])"
    by (simp add: stac_host_reachable_def requests_request_def answer_get raise_for_status_def)
next
  fix e
  assume "srv (sent w) (get_request url True) = Failed (RequestException e)"
  then show "stac_host_reachable srv url w = (Inr False, w)"
    by (simp add: stac_host_reachable_def requests_request_def answer_get)
next
  fix s
  assume "\<not> has_adapter url" and "srv (sent w) (get_request url True) = Status s"
  then show "stac_host_reachable srv url w = (Inr False, w)"
    by (simp add: stac_host_reachable_def requests_request_def answer_get refusal_get)
next
  fix e
  assume "srv (sent w) (get_request url True) = Failed e"
    and "\<not> isinstance_RequestException e"
  moreover from this have "\<not> isinstance_ConnectionError e"
    by (cases e) auto
  ultimately show "stac_host_reachable srv url w = (Inl e, w)"
    by (simp add: stac_host_reachable_def requests_request_def answer_get)
qed

theorem stac_host_reachable_catches_RequestException_witness:
  "stac_host_reachable (scripted [Status 204]) ''http://h'' []
     = (Inr True, [Sent (get_request ''http://h'' True)])
   \<and> stac_host_reachable (scripted [Status 503]) ''http://h'' []
     = (Inr False, [Sent (get_request ''http://h'' True)])
   \<and> stac_host_reachable (scripted [Failed (RequestException ReadTimeout)]) ''http://h'' []
     = (Inr False, [])
   \<and> stac_host_reachable (scripted [Status 200]) ''h'' [] = (Inr False, [])
   \<and> stac_host_reachable (scripted [Failed ValueError]) ''http://h'' [] = (Inl ValueError, [])"
proof -
  have http: "has_adapter ''http://h''"
    using has_adapter_http [of "''h''"] by simp
  have bare: "\<not> has_adapter ''h''"
    by (simp add: has_adapter_def lstrip_def is_space_def lower_def)
  show ?thesis
    using stac_host_reachable_catches_RequestException [of "''http://h''" "scripted [Status 204]" "[]"]
          stac_host_reachable_catches_RequestException [of "''http://h''" "scripted [Status 503]" "[]"]
          stac_host_reachable_catches_RequestException
            [of "''http://h''" "scripted [Failed (RequestException ReadTimeout)]" "[]"]
          stac_host_reachable_catches_RequestException [of "''h''" "scripted [Status 200]" "[]"]
          stac_host_reachable_catches_RequestException
            [of "''http://h''" "scripted [Failed ValueError]" "[]"]
    by (simp add: scripted_def http bare)
qed

text \<open>
  C9 as stated fails: for the URL \<^verbatim>\<open>http://a..b.com\<close> the call \<^verbatim>\<open>requests.get\<close> raises
  \<^verbatim>\<open>LocationParseError\<close>, which is no \<^verbatim>\<open>RequestException\<close>, and the function raises it
  to its caller.
\<close>

theorem location_parse_error_counterexample:
  "stac_host_reachable (scripted [Failed LocationParseError]) ''http://a..b.com'' []
     = (Inl LocationParseError, [])"
  by (simp add: stac_host_reachable_def requests_request_def answer_get scripted_def
        has_adapter_def lstrip_def is_space_def lower_def)

section \<open>Properties of the publisher\<close>

lemma requests_body_reply:
  assumes "json_serializable (PDict body)" and "req_json r = Some body"
    and "has_adapter (req_url r)"
  shows "requests_request srv r w =
     (case srv (sent w) r of
        Failed e \<Rightarrow> (Inl e, w)
      | Status s \<Rightarrow> (Inr s, w @ [Sent r]))"
  using assms by (simp add: requests_request_def answer_def not_json_def)

lemma exists_line_NameError: "exists_line collection_id stac_host s = Inl (NameError ''bcolors'')"
  by (simp add: exists_line_def bcolors_def)

lemma pushed_line_NameError: "pushed_line collection_id stac_host s = Inl (NameError ''bcolors'')"
  by (simp add: pushed_line_def bcolors_def)

lemma post_stac_collection_world:
  "snd (post_stac_collection srv stac_host json_data w) = w
   \<or> snd (post_stac_collection srv stac_host json_data w)
        = w @ [Sent (post_request (os_path_join stac_host [''collections'']) json_data False)]"
proof (cases "map_of json_data ''id''")
  case None
  then show ?thesis by (simp add: post_stac_collection_def)
next
  case (Some cid)
  then show ?thesis
    using requests_request_world
            [of srv "post_request (os_path_join stac_host [''collections'']) json_data False" w]
    by (auto simp: post_stac_collection_def exists_line_NameError pushed_line_NameError
          split: prod.splits sum.splits simp del: os_path_join.simps)
qed

lemma post_stac_collection_conflict:
  assumes "map_of json_data ''id'' = Some collection_id"
    and "json_serializable (PDict json_data)"
    and "has_adapter (os_path_join stac_host [''collections''])"
    and "srv (sent w) (post_request (os_path_join stac_host [''collections'']) json_data False)
           = Status 409"
  shows "post_stac_collection srv stac_host json_data w =
           (Inl (NameError ''bcolors''),
            w @ [Sent (post_request (os_path_join stac_host [''collections'']) json_data False)])"
  using assms
  by (simp add: post_stac_collection_def requests_body_reply post_request_def
        exists_line_NameError del: os_path_join.simps)

lemma post_stac_collection_pushed:
  assumes "map_of json_data ''id'' = Some collection_id"
    and "json_serializable (PDict json_data)"
    and "has_adapter (os_path_join stac_host [''collections''])"
    and "srv (sent w) (post_request (os_path_join stac_host [''collections'']) json_data False)
           = Status 200"
  shows "post_stac_collection srv stac_host json_data w =
           (Inl (NameError ''bcolors''),
            w @ [Sent (post_request (os_path_join stac_host [''collections'']) json_data False)])"
  using assms
  by (simp add: post_stac_collection_def requests_body_reply post_request_def
        pushed_line_NameError del: os_path_join.simps)

text \<open>
  C1. The code does not do what the claim says. With the POST answered by status 409,
  and whatever the server would answer to a PUT, \<open>post_stac_collection\<close> raises
  \<^verbatim>\<open>NameError\<close> for the unbound name \<^verbatim>\<open>bcolors\<close> while it builds the warning line: no
  line is printed and no PUT is sent, so the only request is the POST.
\<close>

theorem post_409_raises_NameError:
  "post_stac_collection (scripted [Status 409, Status 200]) ''http://h'' [(''id'', PStr ''c1'')] []
     = (Inl (NameError ''bcolors''),
        [Sent (post_request ''http://h/collections'' [(''id'', PStr ''c1'')] False)])"
  by (simp add: post_stac_collection_def requests_request_def answer_def not_json_def
        post_request_def exists_line_NameError scripted_def sep_def endswith_def
        has_adapter_def lstrip_def is_space_def lower_def)

text \<open>
  C2 (as amended). When the POST is answered with a status other than 200 and 409, the
  function sends nothing more and prints nothing; it raises \<^verbatim>\<open>HTTPError\<close> when the
  status is a client or server error (400 to 599) and returns normally for every other
  status. A status can only come back for a URL that \<^verbatim>\<open>requests\<close> has an adapter for.
\<close>

theorem post_stac_collection_other_status:
  assumes "map_of json_data ''id'' = Some collection_id"
    and "json_serializable (PDict json_data)"
    and "has_adapter (os_path_join stac_host [''collections''])"
    and "srv (sent w) (post_request (os_path_join stac_host [''collections'']) json_data False)
           = Status s"
    and "s \<noteq> 200" and "s \<noteq> 409"
  shows "post_stac_collection srv stac_host json_data w =
           (if 400 \<le> s \<and> s < 600 then Inl (RequestException (HTTPError s)) else Inr (),
            w @ [Sent (post_request (os_path_join stac_host [''collections'']) json_data False)])"
  using assms
  by (simp add: post_stac_collection_def requests_body_reply post_request_def raise_for_status_def
        del: os_path_join.simps)

theorem post_stac_collection_other_status_witness:
  "post_stac_collection (scripted [Status 500]) ''http://h'' [(''id'', PStr ''c1'')] []
     = (Inl (RequestException (HTTPError 500)),
        [Sent (post_request ''http://h/collections'' [(''id'', PStr ''c1'')] False)])
   \<and> post_stac_collection (scripted [Status 204]) ''http://h'' [(''id'', PStr ''c1'')] []
     = (Inr (),
        [Sent (post_request ''http://h/collections'' [(''id'', PStr ''c1'')] False)])"
  using post_stac_collection_other_status [of "[(''id'', PStr ''c1'')]" "PStr ''c1''"
          "''http://h''" "scripted [Status 500]" "[]" 500]
        post_stac_collection_other_status [of "[(''id'', PStr ''c1'')]" "PStr ''c1''"
          "''http://h''" "scripted [Status 204]" "[]" 204]
        has_adapter_http [of "''h/collections''"]
  by (simp add: scripted_def sep_def endswith_def post_request_def)

text \<open>
  C2 as stated fails: on status 201 the function returns normally.
\<close>

theorem post_201_counterexample:
  "scripted [Status 201] [] (post_request ''http://h/collections'' [(''id'', PStr ''c1'')] False)
     = Status 201
   \<and> fst (post_stac_collection (scripted [Status 201]) ''http://h''
            [(''id'', PStr ''c1'')] []) = Inr ()"
  by (simp add: post_stac_collection_def requests_request_def answer_def not_json_def
        post_request_def scripted_def sep_def endswith_def raise_for_status_def
        has_adapter_def lstrip_def is_space_def lower_def)

section \<open>Properties of the request URL\<close>

lemma startswith_sep: "startswith b sep \<longleftrightarrow> (\<exists>t. b = CHR ''/'' # t)"
  by (cases b) (auto simp: sep_def)

lemma endswith_sep: "endswith p sep \<longleftrightarrow> (\<exists>t. p = t @ ''/'')"
proof -
  have "endswith p sep \<longleftrightarrow> (\<exists>t. rev p = CHR ''/'' # t)"
    by (cases "rev p") (auto simp: endswith_def sep_def)
  also have "\<dots> \<longleftrightarrow> (\<exists>t. p = t @ ''/'')"
    by (metis rev_eq_Cons_iff rev_rev_ident rev.simps(2) rev_swap)
  finally show ?thesis .
qed

lemma join_collections:
  "os_path_join stac_host [''collections''] =
     (if stac_host = [] \<or> endswith stac_host sep then stac_host @ ''collections''
      else stac_host @ ''/collections'')"
  by (simp add: sep_def)

lemma join_collections_id:
  "os_path_join stac_host [''collections'', collection_id] =
     (if startswith collection_id sep then collection_id
      else if stac_host = [] \<or> endswith stac_host sep
           then stac_host @ ''collections/'' @ collection_id
           else stac_host @ ''/collections/'' @ collection_id)"
  by (simp add: sep_def endswith_def)

lemma join_absolute_id:
  assumes "startswith collection_id sep"
  shows "os_path_join stac_host [''collections'', collection_id] = collection_id"
    and "os_path_join stac_host [''collections'', collection_id]
           \<noteq> stac_host @ ''/collections/'' @ collection_id"
proof -
  show eq: "os_path_join stac_host [''collections'', collection_id] = collection_id"
    using assms unfolding join_collections_id by simp
  have "length (stac_host @ ''/collections/'' @ collection_id) > length collection_id"
    by simp
  then show "os_path_join stac_host [''collections'', collection_id]
           \<noteq> stac_host @ ''/collections/'' @ collection_id"
    unfolding eq by (metis less_irrefl)
qed

lemma join_is_plain_url_iff:
  "os_path_join stac_host [''collections'', collection_id]
       = stac_host @ ''/collections/'' @ collection_id
   \<longleftrightarrow> stac_host \<noteq> [] \<and> \<not> endswith stac_host sep \<and> \<not> startswith collection_id sep"
proof (cases "startswith collection_id sep")
  case True
  then show ?thesis using join_absolute_id(2) by simp
next
  case False
  then show ?thesis unfolding join_collections_id by auto
qed

lemma stac_collection_exists_world:
  "snd (stac_collection_exists srv stac_host collection_id w) = w
   \<or> snd (stac_collection_exists srv stac_host collection_id w)
        = w @ [Sent (get_request (os_path_join stac_host [''collections'', collection_id]) False)]"
  using requests_request_world
          [of srv "get_request (os_path_join stac_host [''collections'', collection_id]) False" w]
  by (auto simp: stac_collection_exists_def split: prod.splits sum.splits
        simp del: os_path_join.simps)

lemma stac_collection_exists_absolute_id:
  assumes "startswith collection_id ''/''"
  shows "stac_collection_exists srv stac_host collection_id w =
           (Inl (case srv (sent w) (get_request collection_id False) of
                   Failed e \<Rightarrow> e
                 | Status s \<Rightarrow>
                     RequestException (if CHR '':'' \<in> set collection_id then InvalidSchema
                                       else MissingSchema)), w)"
proof -
  have url: "os_path_join stac_host [''collections'', collection_id] = collection_id"
    using assms join_absolute_id(1) [of collection_id stac_host] by (simp add: sep_def)
  have "\<not> has_adapter (req_url (get_request collection_id False))"
    using no_adapter_after_sep [OF assms] by (simp add: get_request_def)
  from requests_request_no_adapter [OF this, of srv w] show ?thesis
    unfolding stac_collection_exists_def url refusal_after_sep [OF assms]
    by (simp split: reply.splits)
qed

lemma post_stac_collection_sends_post:
  assumes "map_of json_data ''id'' = Some collection_id"
    and "json_serializable (PDict json_data)"
    and "has_adapter (os_path_join stac_host [''collections''])"
    and "srv (sent w) (post_request (os_path_join stac_host [''collections'']) json_data False)
           = Status s"
  shows "snd (post_stac_collection srv stac_host json_data w) =
           w @ [Sent (post_request (os_path_join stac_host [''collections'']) json_data False)]"
proof -
  consider "s = 200" | "s = 409" | "s \<noteq> 200" "s \<noteq> 409"
    by blast
  then show ?thesis
  proof cases
    case 1
    then show ?thesis using post_stac_collection_pushed [OF assms(1-3)] assms(4) by simp
  next
    case 2
    then show ?thesis using post_stac_collection_conflict [OF assms(1-3)] assms(4) by simp
  next
    case 3
    then show ?thesis
      using assms
      by (simp add: post_stac_collection_def requests_body_reply post_request_def
            del: os_path_join.simps)
  qed
qed

text \<open>
  C10. The URL of the GET of \<open>stac_collection_exists\<close> is the path join of the host,
  \<^verbatim>\<open>collections\<close> and the collection id, and the URL of the POST of
  \<open>post_stac_collection\<close> is the path join of the host and \<^verbatim>\<open>collections\<close>: a request
  that is answered went to that URL, and neither function sends a request anywhere
  else. The join puts one separator between the host and \<^verbatim>\<open>collections\<close> unless the
  host is empty or ends in one, and appends the separator and the id unless the id
  begins with the separator; then the join is the id alone. So the GET target equals
  host \<^verbatim>\<open>/collections/\<close> id exactly when the host is not empty and does not end in the
  separator and the id does not begin with it. For an id that begins with \<^verbatim>\<open>/\<close> the
  joined URL is the id alone, which differs from host \<^verbatim>\<open>/collections/\<close> id;
  \<^verbatim>\<open>requests\<close> has no adapter for it, so the call raises and no request is sent at
  all.
\<close>

theorem request_url_is_path_join:
  "os_path_join stac_host [''collections'', collection_id] =
     (if startswith collection_id ''/'' then collection_id
      else if stac_host = [] \<or> endswith stac_host ''/''
           then stac_host @ ''collections/'' @ collection_id
           else stac_host @ ''/collections/'' @ collection_id)
   \<and> os_path_join stac_host [''collections''] =
     (if stac_host = [] \<or> endswith stac_host ''/'' then stac_host @ ''collections''
      else stac_host @ ''/collections'')
   \<and> (os_path_join stac_host [''collections'', collection_id]
         = stac_host @ ''/collections/'' @ collection_id
       \<longleftrightarrow> stac_host \<noteq> [] \<and> \<not> endswith stac_host ''/'' \<and> \<not> startswith collection_id ''/'')
   \<and> (\<forall>s. has_adapter (os_path_join stac_host [''collections'', collection_id]) \<longrightarrow>
          srv (sent w) (get_request (os_path_join stac_host [''collections'', collection_id]) False)
            = Status s \<longrightarrow>
          snd (stac_collection_exists srv stac_host collection_id w)
            = w @ [Sent (get_request (os_path_join stac_host [''collections'', collection_id]) False)])
   \<and> (snd (stac_collection_exists srv stac_host collection_id w) = w
       \<or> snd (stac_collection_exists srv stac_host collection_id w)
            = w @ [Sent (get_request (os_path_join stac_host [''collections'', collection_id]) False)])
   \<and> (\<forall>s. map_of json_data ''id'' \<noteq> None \<longrightarrow> json_serializable (PDict json_data) \<longrightarrow>
          has_adapter (os_path_join stac_host [''collections'']) \<longrightarrow>
          srv (sent w) (post_request (os_path_join stac_host [''collections'']) json_data False)
            = Status s \<longrightarrow>
          snd (post_stac_collection srv stac_host json_data w)
            = w @ [Sent (post_request (os_path_join stac_host [''collections'']) json_data False)])
   \<and> (snd (post_stac_collection srv stac_host json_data w) = w
       \<or> snd (post_stac_collection srv stac_host json_data w)
            = w @ [Sent (post_request (os_path_join stac_host [''collections'']) json_data False)])
   \<and> (startswith collection_id ''/'' \<longrightarrow>
         os_path_join stac_host [''collections'', collection_id]
           \<noteq> stac_host @ ''/collections/'' @ collection_id
         \<and> stac_collection_exists srv stac_host collection_id w =
             (Inl (case srv (sent w) (get_request collection_id False) of
                     Failed e \<Rightarrow> e
                   | Status s \<Rightarrow>
                       RequestException (if CHR '':'' \<in> set collection_id then InvalidSchema
                                         else MissingSchema)), w))"
proof (intro conjI impI allI)
  show "os_path_join stac_host [''collections'', collection_id] =
     (if startswith collection_id ''/'' then collection_id
      else if stac_host = [] \<or> endswith stac_host ''/''
           then stac_host @ ''collections/'' @ collection_id
           else stac_host @ ''/collections/'' @ collection_id)"
    using join_collections_id [of stac_host collection_id] by (simp add: sep_def)
  show "os_path_join stac_host [''collections''] =
     (if stac_host = [] \<or> endswith stac_host ''/'' then stac_host @ ''collections''
      else stac_host @ ''/collections'')"
    using join_collections [of stac_host] by (simp add: sep_def)
  show "os_path_join stac_host [''collections'', collection_id]
         = stac_host @ ''/collections/'' @ collection_id
       \<longleftrightarrow> stac_host \<noteq> [] \<and> \<not> endswith stac_host ''/'' \<and> \<not> startswith collection_id ''/''"
    using join_is_plain_url_iff [of stac_host collection_id] by (simp add: sep_def)
  show "snd (stac_collection_exists srv stac_host collection_id w) = w
       \<or> snd (stac_collection_exists srv stac_host collection_id w)
            = w @ [Sent (get_request (os_path_join stac_host [''collections'', collection_id]) False)]"
    by (rule stac_collection_exists_world)
  show "snd (post_stac_collection srv stac_host json_data w) = w
       \<or> snd (post_stac_collection srv stac_host json_data w)
            = w @ [Sent (post_request (os_path_join stac_host [''collections'']) json_data False)]"
    by (rule post_stac_collection_world)
next
  fix s
  assume "has_adapter (os_path_join stac_host [''collections'', collection_id])"
    and "srv (sent w) (get_request (os_path_join stac_host [''collections'', collection_id]) False)
           = Status s"
  then show "snd (stac_collection_exists srv stac_host collection_id w)
            = w @ [Sent (get_request (os_path_join stac_host [''collections'', collection_id]) False)]"
    by (simp add: stac_collection_exists_def requests_request_def answer_get
          del: os_path_join.simps)
next
  fix s
  assume "map_of json_data ''id'' \<noteq> None" and "json_serializable (PDict json_data)"
    and "has_adapter (os_path_join stac_host [''collections''])"
    and "srv (sent w) (post_request (os_path_join stac_host [''collections'']) json_data False)
           = Status s"
  then show "snd (post_stac_collection srv stac_host json_data w)
            = w @ [Sent (post_request (os_path_join stac_host [''collections'']) json_data False)]"
    using post_stac_collection_sends_post [of json_data _ stac_host srv w s] by blast
next
  assume abs: "startswith collection_id ''/''"
  then show "os_path_join stac_host [''collections'', collection_id]
             \<noteq> stac_host @ ''/collections/'' @ collection_id"
    using join_absolute_id(2) [of collection_id stac_host] by (simp add: sep_def)
  from abs show "stac_collection_exists srv stac_host collection_id w =
             (Inl (case srv (sent w) (get_request collection_id False) of
                     Failed e \<Rightarrow> e
                   | Status s \<Rightarrow>
                       RequestException (if CHR '':'' \<in> set collection_id then InvalidSchema
                                         else MissingSchema)), w)"
    by (rule stac_collection_exists_absolute_id)
qed

theorem request_url_is_path_join_witness:
  "os_path_join ''http://h'' [''collections'', ''c1''] = ''http://h/collections/c1''
   \<and> os_path_join ''http://h'' [''collections'', ''/c1''] = ''/c1''
   \<and> os_path_join ''http://h'' [''collections''] = ''http://h/collections''
   \<and> snd (stac_collection_exists (scripted [Status 404]) ''http://h'' ''c1'' [])
       = [Sent (get_request ''http://h/collections/c1'' False)]
   \<and> snd (post_stac_collection (scripted [Status 201]) ''http://h'' [(''id'', PStr ''c1'')] [])
       = [Sent (post_request ''http://h/collections'' [(''id'', PStr ''c1'')] False)]
   \<and> stac_collection_exists (scripted [Status 404]) ''http://h'' ''/c1'' []
       = (Inl (RequestException MissingSchema), [])"
  using request_url_is_path_join
          [of "''http://h''" "''c1''" "scripted [Status 404]" "[]" "[(''id'', PStr ''c1'')]"]
        request_url_is_path_join
          [of "''http://h''" "''c1''" "scripted [Status 201]" "[]" "[(''id'', PStr ''c1'')]"]
        request_url_is_path_join
          [of "''http://h''" "''/c1''" "scripted [Status 404]" "[]" "[(''id'', PStr ''c1'')]"]
        has_adapter_http [of "''h/collections/c1''"] has_adapter_http [of "''h/collections''"]
  by (simp add: sep_def endswith_def scripted_def)

section \<open>Properties of the collection builder\<close>

lemma SpatialExtent_init_single:
  "SpatialExtent_init (PList [sp]) =
     Inr (SpatialExtent (bboxes_of sp))"
  by (cases sp) (simp_all add: SpatialExtent_init_def bboxes_of_def)

lemma strptime_Ymd_ValueError: "strptime_Ymd s = Inl e \<Longrightarrow> e = ValueError"
  by (auto simp: strptime_Ymd_def Let_def split: list.splits if_splits option.splits)


lemma temporal_bound_rejected:
  assumes "i < length bs" and "rejected_date (bs ! i)"
  shows "temporal_bound (PList bs) i = Inl ValueError"
  using assms
  by (cases "bs ! i") (auto simp: temporal_bound_def split: sum.splits dest: strptime_Ymd_ValueError)

lemma temporal_bound_optional_string:
  assumes "i < length bs" and "optional_string (bs ! i)"
  shows "temporal_bound (PList bs) i = Inl ValueError \<or> (\<exists>t. temporal_bound (PList bs) i = Inr t)"
  using assms
  by (cases "bs ! i") (auto simp: temporal_bound_def split: sum.splits dest: strptime_Ymd_ValueError)

lemma create_stac_collection_built:
  assumes "map_of info ''spatialextent'' = Some sp"
    and "map_of info ''temporalextent'' = Some tmp"
    and "temporal_bound tmp 0 = Inr t0"
    and "temporal_bound tmp 1 = Inr t1"
  shows "create_stac_collection cid info =
     (let info4 = final_info info
                    (Extent (SpatialExtent (bboxes_of sp))
                            (TemporalExtent [(t0, t1)]))
      in case Collection_init cid info4 of
           Inl e \<Rightarrow> (Inl e, info4)
         | Inr c \<Rightarrow> (Inr (Collection_to_dict c), info4))"
  using assms
  by (simp add: create_stac_collection_def pop_def SpatialExtent_init_single final_info_def
        placeholder_def AList.delete_conv' Let_def)


lemma map_of_final_info:
  "map_of (final_info info e) =
     (map_of info)(''spatialextent'' := None, ''temporalextent'' := None,
        ''extent'' \<mapsto> PExtent e, ''summaries'' \<mapsto> PSummaries (Summaries placeholder))"
  by (simp add: final_info_def AList.update_conv' AList.delete_conv')

lemma keys_final_info:
  "fst ` set (final_info info e) =
     (fst ` set info - {''spatialextent'', ''temporalextent''}) \<union> {''extent'', ''summaries''}"
proof -
  have "fst ` set (final_info info e) = dom (map_of (final_info info e))"
    by (simp add: dom_map_of_conv_image_fst)
  also have "\<dots> = (dom (map_of info) - {''spatialextent'', ''temporalextent''})
                     \<union> {''extent'', ''summaries''}"
    unfolding map_of_final_info by auto
  finally show ?thesis by (simp add: dom_map_of_conv_image_fst)
qed


lemma Collection_init_plain:
  assumes "plain_descriptor info"
  shows "Collection_init cid (final_info info e) =
           Inr \<lparr>c_id = cid, c_extent = e, c_summaries = Summaries placeholder,
                c_extra_fields = (case map_of info ''extra_fields'' of
                                    Some (PDict x) \<Rightarrow> x | _ \<Rightarrow> []),
                c_args = final_info info e\<rparr>"
proof -
  have keys: "list_all (\<lambda>kv. fst kv \<in> set Collection_params) (final_info info e)"
  proof -
    have "fst ` set info \<subseteq> set (''spatialextent'' # ''temporalextent'' # Collection_params)"
      using assms by (auto simp: plain_descriptor_def list_all_iff)
    then have "fst ` set (final_info info e) \<subseteq> set Collection_params"
      unfolding keys_final_info by (auto simp: Collection_params_def)
    then show ?thesis by (auto simp: list_all_iff)
  qed
  have ef: "map_of info ''extra_fields'' = None \<or> map_of info ''extra_fields'' = Some PNone
            \<or> (\<exists>x. map_of info ''extra_fields'' = Some (PDict x))"
    using assms by (auto simp: plain_descriptor_def split: option.splits pyval.splits)
  show ?thesis
    using assms keys ef
    by (auto simp: Collection_init_def plain_descriptor_def only_None_def None_or_def
          map_of_final_info)
qed

lemma Collection_init_Inr:
  assumes "Collection_init cid kwargs = Inr c"
  shows "c_id c = cid" and "c_args c = kwargs"
    and "map_of kwargs ''extent'' = Some (PExtent (c_extent c))"
    and "map_of kwargs ''summaries'' = Some (PSummaries (c_summaries c))"
    and "c_extra_fields c = (case map_of kwargs ''extra_fields'' of
                               Some (PDict x) \<Rightarrow> x | _ \<Rightarrow> [])"
  using assms
  by (auto simp: Collection_init_def split: if_splits option.splits pyval.splits)

lemma Collection_init_final_info:
  assumes "Collection_init cid (final_info info e) = Inr c"
  shows "Collection_to_dict c =
           \<lparr>doc_id = (case extra_field info ''id'' of None \<Rightarrow> PStr cid | Some v \<Rightarrow> v),
            doc_description = (case extra_field info ''description'' of
                                 None \<Rightarrow> (case map_of info ''description'' of
                                            None \<Rightarrow> PNone
                                          | Some d \<Rightarrow> d)
                               | Some v \<Rightarrow> v),
            doc_title = (case map_of info ''title'' of
                           None \<Rightarrow> extra_field info ''title''
                         | Some t \<Rightarrow> if t = PNone then extra_field info ''title'' else Some t),
            doc_license = map_of info ''license'',
            doc_extent = Extent_to_dict e,
            doc_summaries = Some (PDict placeholder)\<rparr>"
proof -
  note c = Collection_init_Inr [OF assms]
  have xf: "map_of (c_extra_fields c) = extra_field info"
    unfolding c(5) extra_field_def map_of_final_info
    by (auto split: option.splits pyval.splits)
  have "c_extent c = e" and "c_summaries c = Summaries placeholder"
    using c(3,4) by (simp_all add: map_of_final_info)
  moreover have "map_of (final_info info e) ''description'' = map_of info ''description''"
    and "map_of (final_info info e) ''title'' = map_of info ''title''"
    and "map_of (final_info info e) ''license'' = map_of info ''license''"
    by (simp_all add: map_of_final_info)
  ultimately show ?thesis
    unfolding Collection_to_dict_def xf c(1,2)
    by (simp add: placeholder_def cong: option.case_cong)
qed

lemma create_stac_collection_plain:
  assumes "plain_descriptor info"
    and "map_of info ''spatialextent'' = Some sp"
    and "map_of info ''temporalextent'' = Some tmp"
    and "temporal_bound tmp 0 = Inr t0"
    and "temporal_bound tmp 1 = Inr t1"
  shows "\<exists>c. create_stac_collection cid info =
     (Inr (Collection_to_dict c),
      final_info info (Extent (SpatialExtent (bboxes_of sp)) (TemporalExtent [(t0, t1)])))
     \<and> Collection_init cid
          (final_info info (Extent (SpatialExtent (bboxes_of sp)) (TemporalExtent [(t0, t1)])))
         = Inr c"
  unfolding create_stac_collection_built [OF assms(2-5)] Let_def
    Collection_init_plain [OF assms(1)]
  by simp

lemma create_stac_collection_plain_returns:
  assumes "plain_descriptor info"
    and "map_of info ''spatialextent'' = Some sp"
    and "map_of info ''temporalextent'' = Some tmp"
    and "temporal_bound tmp 0 = Inr t0"
    and "temporal_bound tmp 1 = Inr t1"
  shows "\<exists>doc. fst (create_stac_collection cid info) = Inr doc"
  using create_stac_collection_plain [OF assms, of cid] by auto

lemma create_stac_collection_document:
  assumes "map_of info ''spatialextent'' = Some sp"
    and "map_of info ''temporalextent'' = Some tmp"
    and "temporal_bound tmp 0 = Inr t0"
    and "temporal_bound tmp 1 = Inr t1"
    and "fst (create_stac_collection cid info) = Inr doc"
  shows "doc =
           \<lparr>doc_id = (case extra_field info ''id'' of None \<Rightarrow> PStr cid | Some v \<Rightarrow> v),
            doc_description = (case extra_field info ''description'' of
                                 None \<Rightarrow> (case map_of info ''description'' of
                                            None \<Rightarrow> PNone
                                          | Some d \<Rightarrow> d)
                               | Some v \<Rightarrow> v),
            doc_title = (case map_of info ''title'' of
                           None \<Rightarrow> extra_field info ''title''
                         | Some t \<Rightarrow> if t = PNone then extra_field info ''title'' else Some t),
            doc_license = map_of info ''license'',
            doc_extent = Extent_to_dict
                           (Extent (SpatialExtent (bboxes_of sp)) (TemporalExtent [(t0, t1)])),
            doc_summaries = Some (PDict placeholder)\<rparr>"
proof (cases "Collection_init cid
                (final_info info (Extent (SpatialExtent (bboxes_of sp)) (TemporalExtent [(t0, t1)])))")
  case (Inl e)
  then show ?thesis
    using assms(5) unfolding create_stac_collection_built [OF assms(1-4)] Let_def by simp
next
  case (Inr c)
  then have "doc = Collection_to_dict c"
    using assms(5) unfolding create_stac_collection_built [OF assms(1-4)] Let_def by simp
  then show ?thesis
    using Collection_init_final_info [OF Inr] by simp
qed



lemma example_plain: "plain_descriptor (example_info tmp)"
  by (simp add: plain_descriptor_def example_info_def Collection_params_def only_None_def
        None_or_def)

lemma example_extra_field: "extra_field (example_info tmp) k = None"
  by (simp add: extra_field_def example_info_def)

lemma example_fields:
  "map_of (example_info tmp) ''title'' = Some (PStr ''Example'')"
  "map_of (example_info tmp) ''description'' = Some (PStr ''An example collection'')"
  "map_of (example_info tmp) ''license'' = Some (PStr ''MIT'')"
  by (simp_all add: example_info_def)

lemma example_spatial: "map_of (example_info tmp) ''spatialextent'' = Some world_extent"
  by (simp add: example_info_def)

lemma example_temporal: "map_of (example_info tmp) ''temporalextent'' = Some tmp"
  by (simp add: example_info_def)

lemma bboxes_of_world: "bboxes_of world_extent = PList [world_extent]"
  by (simp add: bboxes_of_def world_extent_def)



lemma strptime_2000_1_1:
  "strptime_Ymd ''2000-1-1'' = Inr \<lparr>dt_year = 2000, dt_month = 1, dt_day = 1,
                                        dt_hour = 0, dt_minute = 0, dt_second = 0\<rparr>"
  by (simp add: strptime_Ymd_def is_digit_def digit_val_def days_in_month_def is_leap_def)

lemma strptime_empty: "strptime_Ymd [] = Inl ValueError"
  by (simp add: strptime_Ymd_def)

lemma datetime_to_str_2000_01_01:
  "datetime_to_str \<lparr>dt_year = 2000, dt_month = Suc 0, dt_day = Suc 0,
                    dt_hour = 0, dt_minute = 0, dt_second = 0\<rparr> = ''2000-01-01T00:00:00Z''"
  by code_simp















text \<open>
  C8 (as amended). For every descriptor with a spatial extent whose temporal extent
  is a pair of bounds, each \<^verbatim>\<open>None\<close> or a string, where one bound is a string that
  \<^verbatim>\<open>strptime\<close> rejects for the format \<^verbatim>\<open>%Y-%m-%d\<close>, the builder raises
  \<^verbatim>\<open>ValueError\<close> to the caller, and the caller's mapping has lost its two extent keys.
\<close>

theorem bad_date_propagates:
  assumes "map_of info ''spatialextent'' = Some sp"
    and "map_of info ''temporalextent'' = Some (PList [b0, b1])"
    and "optional_string b0" and "optional_string b1"
    and "rejected_date b0 \<or> rejected_date b1"
  shows "create_stac_collection cid info =
           (Inl ValueError, AList.delete ''temporalextent'' (AList.delete ''spatialextent'' info))"
proof -
  have unfold: "create_stac_collection cid info =
      (case temporal_bound (PList [b0, b1]) 0 of
         Inl e \<Rightarrow> (Inl e, AList.delete ''temporalextent'' (AList.delete ''spatialextent'' info))
       | Inr t0 \<Rightarrow>
          (case temporal_bound (PList [b0, b1]) 1 of
             Inl e \<Rightarrow> (Inl e, AList.delete ''temporalextent'' (AList.delete ''spatialextent'' info))
           | Inr t1 \<Rightarrow> create_stac_collection cid info))"
    using assms(1,2)
    by (simp add: create_stac_collection_def pop_def SpatialExtent_init_single
          AList.delete_conv' split: sum.splits)
  have b0: "temporal_bound (PList [b0, b1]) 0 = Inl ValueError
            \<or> (\<exists>t. temporal_bound (PList [b0, b1]) 0 = Inr t)"
    using temporal_bound_optional_string [of 0 "[b0, b1]"] assms(3) by simp
  show ?thesis
  proof (cases "rejected_date b0")
    case True
    then have "temporal_bound (PList [b0, b1]) 0 = Inl ValueError"
      using temporal_bound_rejected [of 0 "[b0, b1]"] by simp
    then show ?thesis by (subst unfold) simp
  next
    case False
    then have "rejected_date b1" using assms(5) by simp
    then have "temporal_bound (PList [b0, b1]) 1 = Inl ValueError"
      using temporal_bound_rejected [of 1 "[b0, b1]"] by simp
    then show ?thesis using b0 by (subst unfold) auto
  qed
qed

theorem bad_date_propagates_witness:
  "create_stac_collection ''c1'' (example_info (PList [PStr ''2000-01-01'', PStr []]))
     = (Inl ValueError,
        [(''title'', PStr ''Example''), (''description'', PStr ''An example collection''),
         (''license'', PStr ''MIT'')])"
  using bad_date_propagates
          [of "example_info (PList [PStr ''2000-01-01'', PStr []])" world_extent
              "PStr ''2000-01-01''" "PStr []" "''c1''"]
  by (simp add: example_info_def strptime_empty)

text \<open>
  C8 as stated fails: \<^verbatim>\<open>2000-1-1\<close> does not have the strict form \<^verbatim>\<open>YYYY-MM-DD\<close>, yet
  \<^verbatim>\<open>strptime\<close> reads it as the first of January 2000 and the builder returns a
  document.
\<close>

theorem loose_date_counterexample:
  "\<not> strict_YYYY_MM_DD ''2000-1-1''
   \<and> fst (create_stac_collection ''c1'' (example_info (PList [PStr ''2000-1-1'', PNone])))
       = Inr \<lparr>doc_id = PStr ''c1'',
              doc_description = PStr ''An example collection'',
              doc_title = Some (PStr ''Example''),
              doc_license = Some (PStr ''MIT''),
              doc_extent = PDict [(''spatial'', PDict [(''bbox'', PList [world_extent])]),
                                  (''temporal'', PDict [(''interval'',
                                      PList [PList [PStr ''2000-01-01T00:00:00Z'', PNone]])])],
              doc_summaries = Some (PDict placeholder)\<rparr>"
proof -
  have t0: "temporal_bound (PList [PStr ''2000-1-1'', PNone]) 0
              = Inr (Some \<lparr>dt_year = 2000, dt_month = 1, dt_day = 1,
                           dt_hour = 0, dt_minute = 0, dt_second = 0\<rparr>)"
    by (simp add: temporal_bound_def strptime_2000_1_1)
  have t1: "temporal_bound (PList [PStr ''2000-1-1'', PNone]) 1 = Inr None"
    by (simp add: temporal_bound_def)
  obtain doc where ret: "fst (create_stac_collection ''c1''
                                (example_info (PList [PStr ''2000-1-1'', PNone]))) = Inr doc"
    using create_stac_collection_plain_returns
            [OF example_plain example_spatial example_temporal t0 t1, of "''c1''"]
    by (rule exE)
  have "doc = \<lparr>doc_id = PStr ''c1'',
              doc_description = PStr ''An example collection'',
              doc_title = Some (PStr ''Example''),
              doc_license = Some (PStr ''MIT''),
              doc_extent = PDict [(''spatial'', PDict [(''bbox'', PList [world_extent])]),
                                  (''temporal'', PDict [(''interval'',
                                      PList [PList [PStr ''2000-01-01T00:00:00Z'', PNone]])])],
              doc_summaries = Some (PDict placeholder)\<rparr>"
    by (subst create_stac_collection_document [OF example_spatial example_temporal t0 t1 ret])
       (simp add: example_extra_field example_fields bboxes_of_world encode_bound_def
          datetime_to_str_2000_01_01)
  with ret show ?thesis by (simp add: strict_YYYY_MM_DD_def)
qed

end
